theory Spec2Isabelle
  imports Complex_Main
begin

section \<open>JavaScript values\<close>

text \<open>
  The values that flow through the indicator pipeline are JSON documents (the Prisma
  \<open>Json\<close> columns, the provider's response body, the cache entries) plus JavaScript's
  \<open>undefined\<close>, which a property read of a missing key yields. An object is the list of
  its own enumerable properties in enumeration order, so two objects with the same
  members in a different insertion order are different lists. A number inside such a
  document is finite, and the code only serialises it, turns it into a string and tests
  it for being zero; it is kept as the text JavaScript prints for it (\<open>20\<close>, \<open>0.5\<close>,
  \<open>1e+21\<close>; zero of either sign is \<open>0\<close>). Indicator readings, which are compared and
  subtracted, are doubles, further down.
\<close>

datatype json =
    JUndefined
  | JNull
  | JBool bool
  | JNum string
  | JStr string
  | JArr "json list"
  | JObj "(string \<times> json) list"

type_synonym obj = "(string \<times> json) list"

text \<open>\<open>o[key]\<close> on an object: the member's value, \<open>undefined\<close> when there is none.\<close>

definition get_prop :: "obj \<Rightarrow> string \<Rightarrow> json" where
  "get_prop kvs key = (case map_of kvs key of None \<Rightarrow> JUndefined | Some v \<Rightarrow> v)"

text \<open>\<open>typeof v === 'object'\<close>: objects, arrays and \<open>null\<close>.\<close>

fun typeof_object :: "json \<Rightarrow> bool" where
  "typeof_object (JObj _) = True"
| "typeof_object (JArr _) = True"
| "typeof_object JNull = True"
| "typeof_object _ = False"

text \<open>Truthiness (\<open>!v\<close> is its negation).\<close>

fun truthy :: "json \<Rightarrow> bool" where
  "truthy JUndefined = False"
| "truthy JNull = False"
| "truthy (JBool b) = b"
| "truthy (JNum n) = (n \<noteq> ''0'')"
| "truthy (JStr s) = (s \<noteq> [])"
| "truthy (JArr _) = True"
| "truthy (JObj _) = True"

subsection \<open>Number and string rendering\<close>

definition digit_char :: "nat \<Rightarrow> char" where
  "digit_char d = char_of (48 + d)"

fun show_nat :: "nat \<Rightarrow> string" where
  "show_nat n = (if n < 10 then [digit_char n] else show_nat (n div 10) @ [digit_char (n mod 10)])"

declare show_nat.simps [simp del]

definition hex_char :: "nat \<Rightarrow> char" where
  "hex_char d = (if d < 10 then char_of (48 + d) else char_of (87 + d))"

text \<open>
  \<open>JSON.stringify\<close> of a string (QuoteJSONString): the double quote and the backslash
  are escaped, the control characters get their short escape or \<open>\u00XX\<close>.
\<close>

definition escape_char :: "char \<Rightarrow> string" where
  "escape_char c =
     (if c = CHR 0x22 then [CHR 0x5C, CHR 0x22]
      else if c = CHR 0x5C then [CHR 0x5C, CHR 0x5C]
      else if c = CHR 0x08 then [CHR 0x5C, CHR ''b'']
      else if c = CHR 0x0C then [CHR 0x5C, CHR ''f'']
      else if c = CHR 0x0A then [CHR 0x5C, CHR ''n'']
      else if c = CHR 0x0D then [CHR 0x5C, CHR ''r'']
      else if c = CHR 0x09 then [CHR 0x5C, CHR ''t'']
      else if (of_char c :: nat) < 32
        then [CHR 0x5C, CHR ''u'', CHR ''0'', CHR ''0'',
              hex_char ((of_char c :: nat) div 16), hex_char ((of_char c :: nat) mod 16)]
      else [c])"

definition quote :: "string \<Rightarrow> string" where
  "quote s = CHR 0x22 # concat (map escape_char s) @ [CHR 0x22]"

text \<open>\<open>Array.prototype.join\<close> on strings.\<close>

fun join :: "string \<Rightarrow> string list \<Rightarrow> string" where
  "join sep [] = []"
| "join sep [x] = x"
| "join sep (x # y # ys) = x @ sep @ join sep (y # ys)"

text \<open>
  \<open>JSON.stringify\<close> of a value that is not \<open>undefined\<close>. Members are written in the
  object's enumeration order; a member whose value is \<open>undefined\<close> is left out, an
  \<open>undefined\<close> array element is written \<open>null\<close>.
\<close>

fun stringify :: "json \<Rightarrow> string"
  and stringify_elems :: "json list \<Rightarrow> string list"
  and stringify_members :: "(string \<times> json) list \<Rightarrow> string list" where
  "stringify JUndefined = ''null''"
| "stringify JNull = ''null''"
| "stringify (JBool b) = (if b then ''true'' else ''false'')"
| "stringify (JNum n) = n"
| "stringify (JStr s) = quote s"
| "stringify (JArr xs) = ''['' @ join '','' (stringify_elems xs) @ '']''"
| "stringify (JObj kvs) = ''{'' @ join '','' (stringify_members kvs) @ ''}''"
| "stringify_elems [] = []"
| "stringify_elems (x # xs) = stringify x # stringify_elems xs"
| "stringify_members [] = []"
| "stringify_members ((k, v) # kvs) =
     (if v = JUndefined then stringify_members kvs
      else (quote k @ '':'' @ stringify v) # stringify_members kvs)"

text \<open>\<open>JSON.stringify(v)\<close> at top level: \<open>undefined\<close> has no serialisation.\<close>

definition JSON_stringify :: "json \<Rightarrow> string option" where
  "JSON_stringify v = (if v = JUndefined then None else Some (stringify v))"

text \<open>\<open>String(v)\<close>.\<close>

fun String_of :: "json \<Rightarrow> string" where
  "String_of JUndefined = ''undefined''"
| "String_of JNull = ''null''"
| "String_of (JBool b) = (if b then ''true'' else ''false'')"
| "String_of (JNum n) = n"
| "String_of (JStr s) = s"
| "String_of (JArr xs) = join '','' (map (\<lambda>x. if x = JUndefined \<or> x = JNull then [] else String_of x) xs)"
| "String_of (JObj kvs) = ''[object Object]''"

subsection \<open>Sorting strings\<close>

text \<open>\<open>Array.prototype.sort()\<close> without a comparator orders strings by code unit.\<close>

fun str_le :: "string \<Rightarrow> string \<Rightarrow> bool" where
  "str_le [] ys = True"
| "str_le (x # xs) [] = False"
| "str_le (x # xs) (y # ys) =
     ((of_char x :: nat) < of_char y \<or> (x = y \<and> str_le xs ys))"

fun insert_str :: "string \<Rightarrow> string list \<Rightarrow> string list" where
  "insert_str s [] = [s]"
| "insert_str s (t # ts) = (if str_le s t then s # t # ts else t # insert_str s ts)"

fun sort_strs :: "string list \<Rightarrow> string list" where
  "sort_strs [] = []"
| "sort_strs (s # ss) = insert_str s (sort_strs ss)"

section \<open>cache.ts: the fingerprint\<close>

text \<open>
  \<open>generateCacheKey\<close> copies five named fields of its argument into \<open>keyParams\<close>, sorts
  the names, renders every field that is neither \<open>undefined\<close> nor \<open>null\<close> as
  \<open>name:value\<close> (objects through \<open>JSON.stringify\<close>, everything else through
  \<open>String\<close>) and joins the parts with a bar.
\<close>

definition keyParams :: "obj \<Rightarrow> obj" where
  "keyParams params =
     [(''indicatorType'', get_prop params ''indicatorType''),
      (''symbol'', get_prop params ''symbol''),
      (''interval'', get_prop params ''interval''),
      (''parameters'', get_prop params ''parameters''),
      (''dataSource'', get_prop params ''dataSource'')]"

definition stringValue :: "json \<Rightarrow> string" where
  "stringValue v = (if typeof_object v then stringify v else String_of v)"

definition key_part :: "obj \<Rightarrow> string \<Rightarrow> string option" where
  "key_part kp key =
     (let v = get_prop kp key in
      if v = JUndefined \<or> v = JNull then None
      else Some (key @ '':'' @ stringValue v))"

definition generateCacheKey :: "obj \<Rightarrow> string" where
  "generateCacheKey params =
     (let kp = keyParams params;
          sortedKeys = sort_strs (map fst kp);
          entries = join ''|'' (map the (filter (\<lambda>part. part \<noteq> None) (map (key_part kp) sortedKeys)))
      in ''indicator:'' @ entries)"

text \<open>
  The names of the five components, and the test that leaves a component out of the key
  (\<open>value === undefined || value === null\<close>).
\<close>

definition component_keys :: "string list" where
  "component_keys = [''indicatorType'', ''symbol'', ''interval'', ''parameters'', ''dataSource'']"

definition nullish :: "json \<Rightarrow> bool" where
  "nullish v = (v = JUndefined \<or> v = JNull)"

subsection \<open>Structural equality, as the specification words it\<close>

text \<open>
  The specification speaks of parameters that are structurally equal whatever the order
  in which their keys were inserted. \<open>deep_equal\<close> is that relation, written from the
  specification's words and not from any source function: two objects are equal when
  they have the same keys and equal values under each key, two arrays when they are
  equal element by element.
\<close>

fun deep_equal :: "json \<Rightarrow> json \<Rightarrow> bool"
  and members_within :: "(string \<times> json) list \<Rightarrow> (string \<times> json) list \<Rightarrow> bool"
  and elems_equal :: "json list \<Rightarrow> json list \<Rightarrow> bool" where
  "deep_equal (JObj a) w =
     (case w of JObj b \<Rightarrow> set (map fst a) = set (map fst b) \<and> members_within a b | _ \<Rightarrow> False)"
| "deep_equal (JArr xs) w = (case w of JArr ys \<Rightarrow> elems_equal xs ys | _ \<Rightarrow> False)"
| "deep_equal JUndefined w = (w = JUndefined)"
| "deep_equal JNull w = (w = JNull)"
| "deep_equal (JBool b) w = (w = JBool b)"
| "deep_equal (JNum n) w = (w = JNum n)"
| "deep_equal (JStr s) w = (w = JStr s)"
| "members_within [] b = True"
| "members_within ((k, v) # a) b =
     ((case map_of b k of None \<Rightarrow> False | Some w \<Rightarrow> deep_equal v w) \<and> members_within a b)"
| "elems_equal [] ys = (ys = [])"
| "elems_equal (x # xs) ys =
     (case ys of [] \<Rightarrow> False | y # ys' \<Rightarrow> deep_equal x y \<and> elems_equal xs ys')"

section \<open>technicalIndicators.ts: the time to live of a cache entry\<close>

text \<open>
  The chain of comparisons on \<open>params.interval\<close> in \<open>getTechnicalIndicator\<close>, with its
  default of 24 hours for every other interval.
\<close>

definition ttlSeconds :: "json \<Rightarrow> nat" where
  "ttlSeconds interval =
     (if interval = JStr ''1min'' then 60 * 5
      else if interval = JStr ''5min'' then 300 * 2
      else if interval = JStr ''daily'' then 86400 + 3600
      else if interval = JStr ''weekly'' then 86400 * 7 + 3600
      else if interval = JStr ''monthly'' then 86400 * 30 + 3600
      else 86400)"

section \<open>The relational store\<close>

text \<open>
  The rows of \<open>schema.prisma\<close> with the columns the evaluation engine reads. A nullable
  column is an \<open>option\<close>; \<open>targetValue\<close> is a \<open>Float\<close>, a double, here the real number it
  stands for.
\<close>

datatype Operator =
    EQUALS
  | NOT_EQUALS
  | GREATER_THAN
  | LESS_THAN
  | GREATER_THAN_OR_EQUAL
  | LESS_THAN_OR_EQUAL
  | CROSSES_ABOVE
  | CROSSES_BELOW

record Condition =
  cond_id :: string
  indicatorType :: string
  dataSource :: "string option"
  dataKey :: "string option"
  symbol :: "string option"
  interval :: "string option"
  parameters :: json
  operator :: Operator
  targetValue :: "real option"
  targetIndicatorId :: "string option"

datatype ActionType = BUY | SELL | NOTIFY | REBALANCE | LOG_MESSAGE

record Action =
  action_id :: string
  actionType :: ActionType
  action_parameters :: json
  action_order :: int

record StrategyBlock =
  block_id :: string
  strategyId :: string
  conditionId :: "string option"
  actionId :: "string option"
  block_order :: int

record Strategy =
  strategy_id :: string
  isActive :: bool

record database =
  strategies :: "Strategy list"
  strategyBlocks :: "StrategyBlock list"
  conditions :: "Condition list"
  actions :: "Action list"

section \<open>Redis: the cache and the two streams\<close>

text \<open>
  The client's \<open>isReady\<close> flag, the key/value store (each value with the \<open>EX\<close> seconds it
  was written with; an expired key is an absent key) and the entries appended to the
  streams \<open>indicatorUpdates\<close> and \<open>actionRequired\<close>, each a list of field/value pairs.
  A command sent to Redis succeeds; the one failure the sources test for is a client
  that is not ready, which both publishers check before they write to a stream. Of the
  console output only the errors and warnings of the fetcher are kept, further down.
\<close>

record redis =
  isReady :: bool
  store :: "string \<rightharpoonup> string \<times> nat"
  indicatorUpdates :: "(string \<times> string) list list"
  actionRequired :: "(string \<times> string) list list"

text \<open>
  Two built-ins of the JavaScript runtime are parameters of the model: \<open>JSON.parse\<close>
  (\<open>None\<close> when it throws) and \<open>parseFloat\<close> (\<open>None\<close> for \<open>NaN\<close>).
\<close>

record runtime =
  JSON_parse :: "string \<Rightarrow> json option"
  parseFloat :: "json \<Rightarrow> real option"

text \<open>
  \<open>getCachedIndicatorEntry\<close>: \<open>null\<close> for a missing or empty value and for a value that
  does not parse, the parsed value otherwise.
\<close>

definition getCachedIndicatorEntry :: "runtime \<Rightarrow> redis \<Rightarrow> string \<Rightarrow> json" where
  "getCachedIndicatorEntry rt r key =
     (case store r key of
        None \<Rightarrow> JNull
      | Some (cached, ex) \<Rightarrow>
          if cached = [] then JNull
          else (case JSON_parse rt cached of None \<Rightarrow> JNull | Some entry \<Rightarrow> entry))"

text \<open>
  The own enumerable properties of a value (\<open>Object.keys\<close>, \<open>Object.values\<close>, spread):
  the members of an object, the indexed elements of an array or a string.
\<close>

fun entries :: "json \<Rightarrow> obj" where
  "entries (JObj kvs) = kvs"
| "entries (JArr xs) = zip (map show_nat [0..<length xs]) xs"
| "entries (JStr s) = zip (map show_nat [0..<length s]) (map (\<lambda>c. JStr [c]) s)"
| "entries _ = []"

text \<open>
  \<open>v.name\<close> for a name that is neither an index nor a built-in property; the callers
  have checked that \<open>v\<close> is neither \<open>null\<close> nor \<open>undefined\<close>.
\<close>

fun read_prop :: "json \<Rightarrow> string \<Rightarrow> json" where
  "read_prop (JObj kvs) name = get_prop kvs name"
| "read_prop _ name = JUndefined"

section \<open>evaluator.ts: reading a series\<close>

text \<open>
  The first key of a data point whose value parses as a number gives the reading; an
  empty key counts as no key (\<open>valueKey ? ... : null\<close>).
\<close>

definition pointValue :: "runtime \<Rightarrow> json \<Rightarrow> real option" where
  "pointValue rt dataPoint =
     (if \<not> truthy dataPoint \<or> \<not> typeof_object dataPoint then None
      else (case find (\<lambda>k. parseFloat rt (get_prop (entries dataPoint) k) \<noteq> None)
                   (map fst (entries dataPoint)) of
              None \<Rightarrow> None
            | Some valueKey \<Rightarrow>
                if valueKey = [] then None
                else parseFloat rt (get_prop (entries dataPoint) valueKey)))"

definition getLatestIndicatorValue :: "runtime \<Rightarrow> json \<Rightarrow> real option" where
  "getLatestIndicatorValue rt indicatorData =
     (if \<not> truthy indicatorData \<or> \<not> typeof_object indicatorData then None
      else (case rev (sort_strs (map fst (entries indicatorData))) of
              [] \<Rightarrow> None
            | latestDate # _ \<Rightarrow> pointValue rt (get_prop (entries indicatorData) latestDate)))"

definition getPreviousIndicatorValue :: "runtime \<Rightarrow> json \<Rightarrow> real option" where
  "getPreviousIndicatorValue rt indicatorData =
     (if \<not> truthy indicatorData \<or> \<not> typeof_object indicatorData then None
      else (case rev (sort_strs (map fst (entries indicatorData))) of
              _ # previousDate # _ \<Rightarrow> pointValue rt (get_prop (entries indicatorData) previousDate)
            | _ \<Rightarrow> None))"

section \<open>evaluator.ts: one condition\<close>

text \<open>
  The object a condition's cache key is generated from; a \<open>null\<close> column is \<open>null\<close>.
\<close>

definition opt_json :: "string option \<Rightarrow> json" where
  "opt_json x = (case x of None \<Rightarrow> JNull | Some s \<Rightarrow> JStr s)"

definition cacheKeyParams :: "Condition \<Rightarrow> obj" where
  "cacheKeyParams c =
     [(''indicatorType'', JStr (indicatorType c)),
      (''symbol'', opt_json (symbol c)),
      (''interval'', opt_json (interval c)),
      (''parameters'', parameters c),
      (''dataSource'', opt_json (dataSource c))]"

text \<open>\<open>prisma.condition.findUnique({ where: { id } })\<close>.\<close>

definition findUniqueCondition :: "database \<Rightarrow> string \<Rightarrow> Condition option" where
  "findUniqueCondition db i = find (\<lambda>c. cond_id c = i) (conditions db)"

text \<open>
  The first half of \<open>evaluateSingleCondition\<close>: the target is the latest cached reading
  of the referenced condition when \<open>targetIndicatorId\<close> is set (and not empty), the
  fixed \<open>targetValue\<close> otherwise; \<open>None\<close> on each path that returns \<open>false\<close> early.
\<close>

definition resolveTarget :: "runtime \<Rightarrow> database \<Rightarrow> redis \<Rightarrow> Condition \<Rightarrow> real option" where
  "resolveTarget rt db r condition =
     (case targetIndicatorId condition of
        Some tid \<Rightarrow>
          if tid \<noteq> [] then
            (case findUniqueCondition db tid of
               None \<Rightarrow> None
             | Some targetCondition \<Rightarrow>
                 let targetCachedEntry =
                       getCachedIndicatorEntry rt r (generateCacheKey (cacheKeyParams targetCondition))
                 in if \<not> truthy targetCachedEntry then None
                    else getLatestIndicatorValue rt (read_prop targetCachedEntry ''data''))
          else targetValue condition
      | None \<Rightarrow> targetValue condition)"

subsection \<open>Double precision\<close>

text \<open>
  A reading or a target is an IEEE 754 double, here the real number it stands for
  (\<open>NaN\<close> and the infinities are no values of the model). Comparing two doubles is
  comparing these reals. A difference is the exact difference rounded to the nearest
  double, a tie going to the even significand: \<open>binade\<close> finds the power of two at or
  below a positive number (the exponents of the doubles lie between -1074 and 1023, so
  1100 steps are enough), a double of that binade is a multiple of the power of two 52
  places lower, and below \<open>2^-1022\<close> the spacing stays \<open>2^-1074\<close>. A difference too large
  for a double keeps its real value here; \<open>Infinity\<close> compares with \<open>0.0001\<close> in the
  same way.
\<close>

definition round_half_even :: "real \<Rightarrow> int" where
  "round_half_even q =
     (let f = \<lfloor>q\<rfloor> in
      if q - of_int f < 1 / 2 then f
      else if q - of_int f > 1 / 2 then f + 1
      else if even f then f else f + 1)"

fun binade :: "nat \<Rightarrow> real \<Rightarrow> int" where
  "binade 0 x = 0"
| "binade (Suc n) x =
     (if 2 \<le> x then binade n (x / 2) + 1
      else if x < 1 then binade n (2 * x) - 1
      else 0)"

definition round_double :: "real \<Rightarrow> real" where
  "round_double x =
     (if x = 0 then 0
      else (let e = max (binade 1100 \<bar>x\<bar>) (- 1022)
            in of_int (round_half_even (x / 2 powi (e - 52))) * 2 powi (e - 52)))"

text \<open>
  The second half: the \<open>switch\<close> on the operator. \<open>currentValue - target\<close> is a
  difference of doubles and the literal \<open>0.0001\<close> is the double nearest to it.
\<close>

fun applyOperator :: "Operator \<Rightarrow> real \<Rightarrow> real option \<Rightarrow> real \<Rightarrow> bool" where
  "applyOperator GREATER_THAN currentValue previousValue target = (currentValue > target)"
| "applyOperator LESS_THAN currentValue previousValue target = (currentValue < target)"
| "applyOperator EQUALS currentValue previousValue target =
     (\<bar>round_double (currentValue - target)\<bar> < round_double 0.0001)"
| "applyOperator NOT_EQUALS currentValue previousValue target =
     (\<bar>round_double (currentValue - target)\<bar> \<ge> round_double 0.0001)"
| "applyOperator GREATER_THAN_OR_EQUAL currentValue previousValue target =
     (currentValue \<ge> target)"
| "applyOperator LESS_THAN_OR_EQUAL currentValue previousValue target =
     (currentValue \<le> target)"
| "applyOperator CROSSES_ABOVE currentValue previousValue target =
     (case previousValue of
        None \<Rightarrow> False
      | Some previous \<Rightarrow> previous \<le> target \<and> currentValue > target)"
| "applyOperator CROSSES_BELOW currentValue previousValue target =
     (case previousValue of
        None \<Rightarrow> False
      | Some previous \<Rightarrow> previous \<ge> target \<and> currentValue < target)"

definition evaluateSingleCondition ::
  "runtime \<Rightarrow> database \<Rightarrow> redis \<Rightarrow> Condition \<Rightarrow> real \<Rightarrow> real option \<Rightarrow> bool" where
  "evaluateSingleCondition rt db r condition currentValue previousValue =
     (case resolveTarget rt db r condition of
        None \<Rightarrow> False
      | Some target \<Rightarrow> applyOperator (operator condition) currentValue previousValue target)"

section \<open>evaluator.ts: the strategies behind an indicator update\<close>

subsection \<open>Matching conditions\<close>

text \<open>
  \<open>prisma.condition.findMany\<close> with the three equality filters. The payload's
  \<open>indicatorType\<close>, \<open>symbol\<close> and \<open>interval\<close> are strings, as a stream message delivers
  them; a \<open>null\<close> column matches none.
\<close>

definition where_eq :: "string option \<Rightarrow> json \<Rightarrow> bool" where
  "where_eq col v = (case col of None \<Rightarrow> False | Some s \<Rightarrow> v = JStr s)"

definition findManyConditions :: "database \<Rightarrow> json \<Rightarrow> json \<Rightarrow> json \<Rightarrow> Condition list" where
  "findManyConditions db ty sy iv =
     filter (\<lambda>c. ty = JStr (indicatorType c) \<and> where_eq (symbol c) sy \<and> where_eq (interval c) iv)
       (conditions db)"

text \<open>The included relation \<open>strategyBlocks\<close> of a condition, and \<open>block.strategy?.isActive\<close>.\<close>

definition blocksOfCondition :: "database \<Rightarrow> Condition \<Rightarrow> StrategyBlock list" where
  "blocksOfCondition db c = filter (\<lambda>b. conditionId b = Some (cond_id c)) (strategyBlocks db)"

definition blockStrategyActive :: "database \<Rightarrow> StrategyBlock \<Rightarrow> bool" where
  "blockStrategyActive db b =
     (case find (\<lambda>s. strategy_id s = strategyId b) (strategies db) of
        None \<Rightarrow> False
      | Some s \<Rightarrow> isActive s)"

text \<open>
  The accumulators of step 2: the set \<open>relevantStrategyIds\<close> in insertion order and the
  map \<open>conditionsByStrategy\<close>.
\<close>

type_synonym matches = "string list \<times> (string \<rightharpoonup> Condition list)"

definition addStrategyId :: "string \<Rightarrow> string list \<Rightarrow> string list" where
  "addStrategyId sid ids = (if sid \<in> set ids then ids else ids @ [sid])"

definition storeCondition :: "string \<Rightarrow> Condition \<Rightarrow> (string \<rightharpoonup> Condition list) \<Rightarrow> (string \<rightharpoonup> Condition list)" where
  "storeCondition sid c byStrategy =
     (let cs = (case byStrategy sid of None \<Rightarrow> [] | Some cs \<Rightarrow> cs) in
      if list_ex (\<lambda>c'. cond_id c' = cond_id c) cs then byStrategy(sid \<mapsto> cs)
      else byStrategy(sid \<mapsto> cs @ [c]))"

fun collectBlocks :: "database \<Rightarrow> Condition \<Rightarrow> StrategyBlock list \<Rightarrow> matches \<Rightarrow> matches" where
  "collectBlocks db c [] acc = acc"
| "collectBlocks db c (b # bs) (ids, byStrategy) =
     (if blockStrategyActive db b
      then collectBlocks db c bs
             (addStrategyId (strategyId b) ids, storeCondition (strategyId b) c byStrategy)
      else collectBlocks db c bs (ids, byStrategy))"

text \<open>
  The loop over \<open>matchingConditions\<close>: a condition whose parameters do not serialise to
  the same string as the event's is skipped (\<open>continue\<close>).
\<close>

fun collectConditions :: "database \<Rightarrow> json \<Rightarrow> Condition list \<Rightarrow> matches \<Rightarrow> matches" where
  "collectConditions db updatedParams [] acc = acc"
| "collectConditions db updatedParams (c # cs) acc =
     (if JSON_stringify (parameters c) \<noteq> JSON_stringify updatedParams
      then collectConditions db updatedParams cs acc
      else collectConditions db updatedParams cs (collectBlocks db c (blocksOfCondition db c) acc))"

text \<open>The conditions stored for a strategy in \<open>conditionsByStrategy\<close>.\<close>

definition storedConditions :: "(string \<rightharpoonup> Condition list) \<Rightarrow> string \<Rightarrow> Condition list" where
  "storedConditions byStrategy sid = (case byStrategy sid of None \<Rightarrow> [] | Some cs \<Rightarrow> cs)"

text \<open>
  Two abbreviations for the statements about step 2: a condition passes the parameter
  check of the loop, and some block of a list links to a given active strategy.
\<close>

definition paramsMatch :: "json \<Rightarrow> Condition \<Rightarrow> bool" where
  "paramsMatch up c = (JSON_stringify (parameters c) = JSON_stringify up)"

definition activeLink :: "database \<Rightarrow> StrategyBlock list \<Rightarrow> string \<Rightarrow> bool" where
  "activeLink db bs sid = (\<exists>b \<in> set bs. strategyId b = sid \<and> blockStrategyActive db b)"

subsection \<open>One strategy\<close>

text \<open>
  \<open>Array.prototype.findIndex\<close>; where the source gets \<open>-1\<close> the model gets the length
  of the list, which is no index of the list either.
\<close>

fun findIndex :: "('a \<Rightarrow> bool) \<Rightarrow> 'a list \<Rightarrow> nat" where
  "findIndex P [] = 0"
| "findIndex P (x # xs) = (if P x then 0 else Suc (findIndex P xs))"

text \<open>
  \<open>self.filter((x, index, self) => index === self.findIndex(y => y.id === x.id))\<close>:
  the first row of every id.
\<close>

definition uniqueById :: "('a \<Rightarrow> string) \<Rightarrow> 'a list \<Rightarrow> 'a list" where
  "uniqueById ident self =
     map snd (filter (\<lambda>(index, x). index = findIndex (\<lambda>y. ident y = ident x) self)
                (zip [0..<length self] self))"

text \<open>
  \<open>prisma.strategyBlock.findMany\<close> for one strategy, in ascending \<open>order\<close>, with the
  included \<open>condition\<close> and \<open>action\<close> rows (\<open>None\<close> for \<open>null\<close>).
\<close>

definition blocksOfStrategy :: "database \<Rightarrow> string \<Rightarrow> StrategyBlock list" where
  "blocksOfStrategy db sid = sort_key block_order (filter (\<lambda>b. strategyId b = sid) (strategyBlocks db))"

definition blockCondition :: "database \<Rightarrow> StrategyBlock \<Rightarrow> Condition option" where
  "blockCondition db b =
     (case conditionId b of None \<Rightarrow> None | Some i \<Rightarrow> find (\<lambda>c. cond_id c = i) (conditions db))"

definition blockAction :: "database \<Rightarrow> StrategyBlock \<Rightarrow> Action option" where
  "blockAction db b =
     (case actionId b of None \<Rightarrow> None | Some i \<Rightarrow> find (\<lambda>a. action_id a = i) (actions db))"

definition allStrategyConditions :: "database \<Rightarrow> string \<Rightarrow> Condition list" where
  "allStrategyConditions db sid =
     uniqueById cond_id
       (map the (filter (\<lambda>x. x \<noteq> None) (map (blockCondition db) (blocksOfStrategy db sid))))"

definition allStrategyActions :: "database \<Rightarrow> string \<Rightarrow> Action list" where
  "allStrategyActions db sid =
     uniqueById action_id
       (map the (filter (\<lambda>x. x \<noteq> None) (map (blockAction db) (blocksOfStrategy db sid))))"

text \<open>
  The body of the loop over the strategy's conditions: the condition is not met when
  its own cache entry is missing, when the entry has no latest reading, or when
  \<open>evaluateSingleCondition\<close> says so.
\<close>

definition conditionMet :: "runtime \<Rightarrow> database \<Rightarrow> redis \<Rightarrow> Condition \<Rightarrow> bool" where
  "conditionMet rt db r condition =
     (let cachedEntry = getCachedIndicatorEntry rt r (generateCacheKey (cacheKeyParams condition))
      in if \<not> truthy cachedEntry then False
         else (case getLatestIndicatorValue rt (read_prop cachedEntry ''data'') of
                 None \<Rightarrow> False
               | Some currentValue \<Rightarrow>
                   evaluateSingleCondition rt db r condition currentValue
                     (getPreviousIndicatorValue rt (read_prop cachedEntry ''data''))))"

text \<open>The loop itself, leaving at the first condition that is not met.\<close>

fun allConditionsMet :: "runtime \<Rightarrow> database \<Rightarrow> redis \<Rightarrow> Condition list \<Rightarrow> bool" where
  "allConditionsMet rt db r [] = True"
| "allConditionsMet rt db r (c # cs) =
     (if \<not> conditionMet rt db r c then False else allConditionsMet rt db r cs)"

subsection \<open>redisStream.ts: publishing an action\<close>

fun show_ActionType :: "ActionType \<Rightarrow> string" where
  "show_ActionType BUY = ''BUY''"
| "show_ActionType SELL = ''SELL''"
| "show_ActionType NOTIFY = ''NOTIFY''"
| "show_ActionType REBALANCE = ''REBALANCE''"
| "show_ActionType LOG_MESSAGE = ''LOG_MESSAGE''"

text \<open>
  The stream entry of \<open>publishActionRequired\<close>: the five fields of the payload in the
  order of the object literal, \<open>parameters\<close> and \<open>triggeringIndicator\<close> serialised.
\<close>

definition actionStreamData :: "string \<Rightarrow> ActionType \<Rightarrow> json \<Rightarrow> string \<Rightarrow> obj \<Rightarrow> (string \<times> string) list" where
  "actionStreamData aid aty params sid triggeringIndicator =
     [(''actionId'', aid),
      (''actionType'', show_ActionType aty),
      (''parameters'', stringify params),
      (''strategyId'', sid),
      (''triggeringIndicator'', stringify (JObj triggeringIndicator))]"

text \<open>
  \<open>publishActionRequired\<close> returns without publishing when the client is not ready;
  otherwise \<open>xAdd\<close> appends the entry to the stream \<open>actionRequired\<close>.
\<close>

definition publishActionRequired :: "redis \<Rightarrow> string \<Rightarrow> ActionType \<Rightarrow> json \<Rightarrow> string \<Rightarrow> obj \<Rightarrow> redis" where
  "publishActionRequired r aid aty params sid triggeringIndicator =
     (if \<not> isReady r then r
      else r\<lparr>actionRequired :=
                actionRequired r @ [actionStreamData aid aty params sid triggeringIndicator]\<rparr>)"

text \<open>
  Step 4 for one action: parameters that are no object are replaced by the empty
  object.
\<close>

definition publishAction :: "string \<Rightarrow> obj \<Rightarrow> redis \<Rightarrow> Action \<Rightarrow> redis" where
  "publishAction sid payload r action =
     (let actionParams =
            (if typeof_object (action_parameters action) \<and> action_parameters action \<noteq> JNull
             then action_parameters action else JObj [])
      in publishActionRequired r (action_id action) (actionType action) actionParams sid payload)"


text \<open>
  One round of the loop over \<open>relevantStrategyIds\<close>: a strategy without conditions is
  skipped; the actions are published when every condition is met, and only then.
\<close>

definition evaluateStrategy :: "runtime \<Rightarrow> database \<Rightarrow> obj \<Rightarrow> redis \<Rightarrow> string \<Rightarrow> redis" where
  "evaluateStrategy rt db payload r sid =
     (let conds = allStrategyConditions db sid;
          acts = allStrategyActions db sid
      in if conds = [] then r
         else if allConditionsMet rt db r conds
           then (if acts = [] then r else foldl (publishAction sid payload) r acts)
           else r)"

subsection \<open>The exported function\<close>

definition evaluateStrategiesForIndicator :: "runtime \<Rightarrow> database \<Rightarrow> redis \<Rightarrow> obj \<Rightarrow> redis" where
  "evaluateStrategiesForIndicator rt db r payload =
     (let ty = get_prop payload ''indicatorType'';
          sy = get_prop payload ''symbol'';
          iv = get_prop payload ''interval'';
          updatedParams = get_prop payload ''parameters''
      in if \<not> truthy ty \<or> \<not> truthy sy \<or> \<not> truthy iv \<or> \<not> typeof_object updatedParams then r
         else
           let matchingConditions = findManyConditions db ty sy iv;
               (relevantStrategyIds, conditionsByStrategy) =
                  collectConditions db updatedParams matchingConditions ([], Map.empty)
           in if relevantStrategyIds = [] then r
              else foldl (evaluateStrategy rt db payload) r relevantStrategyIds)"

section \<open>technicalIndicators.ts: fetching an indicator\<close>

subsection \<open>Objects and strings\<close>

text \<open>
  Writing a member (\<open>o[k] = v\<close>, or a later member of an object literal): an existing
  key keeps its place and takes the new value, a new key is appended. Spreading
  (\<open>{...a, ...b}\<close>) writes the members of \<open>b\<close> one by one.
\<close>

definition obj_set :: "obj \<Rightarrow> string \<Rightarrow> json \<Rightarrow> obj" where
  "obj_set kvs k v =
     (if k \<in> set (map fst kvs) then map (\<lambda>(k', v'). if k' = k then (k', v) else (k', v')) kvs
      else kvs @ [(k, v)])"

definition obj_assign :: "obj \<Rightarrow> obj \<Rightarrow> obj" where
  "obj_assign target source = foldl (\<lambda>acc (k, v). obj_set acc k v) target source"

fun starts_with :: "string \<Rightarrow> string \<Rightarrow> bool" where
  "starts_with s [] = True"
| "starts_with [] (c # cs) = False"
| "starts_with (x # xs) (c # cs) = (x = c \<and> starts_with xs cs)"

text \<open>\<open>String.prototype.includes\<close>.\<close>

fun includes_str :: "string \<Rightarrow> string \<Rightarrow> bool" where
  "includes_str [] needle = (needle = [])"
| "includes_str (x # xs) needle = (starts_with (x # xs) needle \<or> includes_str xs needle)"

text \<open>\<open>val.hasOwnProperty(name)\<close> for a name that is no index.\<close>

fun hasOwnProperty :: "json \<Rightarrow> string \<Rightarrow> bool" where
  "hasOwnProperty (JObj kvs) name = (name \<in> set (map fst kvs))"
| "hasOwnProperty _ name = False"

subsection \<open>The outside world of the fetcher\<close>

text \<open>
  What \<open>getTechnicalIndicator\<close> can throw inside its \<open>try\<close>: a failed HTTP call, the two
  \<open>Error\<close>s it raises itself, and the \<open>TypeError\<close> of calling \<open>includes\<close> on a value that
  has none.
\<close>

datatype fetch_error =
    RequestFailed string
  | InvalidData
  | NoIndicatorData
  | TypeError

text \<open>The lines written by \<open>console.error\<close> and \<open>console.warn\<close>.\<close>

datatype diagnostic =
    InvalidDataReceived json
  | RateLimitLikely string
  | CouldNotExtract json
  | ErrorFetching string fetch_error
  | ClientNotReady

text \<open>
  Redis, the requests sent to the provider so far, and the diagnostics written so far.
\<close>

record world =
  redisOf :: redis
  requests :: "obj list"
  diagnostics :: "diagnostic list"

text \<open>
  The provider is a parameter: for the query parameters of a request, either the
  failure of the call or the body of the response. So are the API key of the
  environment and the two readings of the clock.
\<close>

record surroundings =
  provider :: "obj \<Rightarrow> string + json"
  apikey :: json
  fetchedAt :: string
  fetchTime :: string

subsection \<open>The pieces of the function\<close>

text \<open>The query parameters: \<open>{ function, symbol, interval, ...parameters, apikey }\<close>.\<close>

definition apiRequest :: "json \<Rightarrow> obj \<Rightarrow> obj" where
  "apiRequest key params =
     obj_set
       (obj_assign
          [(''function'', get_prop params ''function''),
           (''symbol'', get_prop params ''symbol''),
           (''interval'', get_prop params ''interval'')]
          (entries (get_prop params ''parameters'')))
       ''apikey'' key"

text \<open>The basic validation of the response body.\<close>

definition invalidData :: "json \<Rightarrow> bool" where
  "invalidData data =
     (\<not> truthy data \<or> \<not> typeof_object data \<or> truthy (read_prop data ''Error Message'') \<or>
      \<not> truthy (read_prop data ''Meta Data''))"

text \<open>
  The test for the rate limit message, made only on a body that failed the validation:
  \<open>(data["Note"] || data["Information"])?.includes("API call frequency")\<close>.
\<close>

definition rateLimitNote :: "json \<Rightarrow> fetch_error + bool" where
  "rateLimitNote data =
     (if typeof_object data \<and> data \<noteq> JNull then
        (let note = (if truthy (read_prop data ''Note'') then read_prop data ''Note''
                     else read_prop data ''Information'')
         in case note of
              JUndefined \<Rightarrow> Inr False
            | JNull \<Rightarrow> Inr False
            | JStr s \<Rightarrow> Inr (includes_str s ''API call frequency'')
            | JArr xs \<Rightarrow> Inr (JStr ''API call frequency'' \<in> set xs)
            | _ \<Rightarrow> Inl TypeError)
      else Inr False)"

text \<open>
  The data block: the first value of the body that is an object (or an array) and has
  no member \<open>1: Symbol\<close>.
\<close>

definition actualIndicatorData :: "json \<Rightarrow> json option" where
  "actualIndicatorData data =
     find (\<lambda>val. typeof_object val \<and> val \<noteq> JNull \<and> \<not> hasOwnProperty val ''1: Symbol'')
       (map snd (entries data))"

subsection \<open>cache.ts: writing an entry\<close>

definition cacheEntry :: "json \<Rightarrow> obj \<Rightarrow> string \<Rightarrow> json" where
  "cacheEntry data metadata now =
     JObj [(''data'', data), (''metadata'', JObj metadata), (''fetchedAt'', JStr now)]"

definition setCachedIndicatorData :: "redis \<Rightarrow> string \<Rightarrow> json \<Rightarrow> obj \<Rightarrow> nat \<Rightarrow> string \<Rightarrow> redis" where
  "setCachedIndicatorData r key data metadata ttl now =
     r\<lparr>store := (store r)(key \<mapsto> (stringify (cacheEntry data metadata now), ttl))\<rparr>"

subsection \<open>redisStream.ts: publishing an update\<close>

text \<open>
  The fields of the stream entry: a field whose value is \<open>undefined\<close> or \<open>null\<close> is
  skipped, \<open>parameters\<close> is serialised when it is an object, every other value goes
  through \<open>String\<close>.
\<close>

definition updateField :: "string \<times> json \<Rightarrow> (string \<times> string) option" where
  "updateField kv =
     (case kv of (key, v) \<Rightarrow>
        if v = JUndefined \<or> v = JNull then None
        else if key = ''parameters'' \<and> typeof_object v then Some (key, stringify v)
        else Some (key, String_of v))"

definition updateStreamData :: "obj \<Rightarrow> (string \<times> string) list" where
  "updateStreamData payload = map the (filter (\<lambda>x. x \<noteq> None) (map updateField payload))"

definition publishIndicatorUpdate :: "world \<Rightarrow> obj \<Rightarrow> world" where
  "publishIndicatorUpdate w payload =
     (if \<not> isReady (redisOf w) then w\<lparr>diagnostics := diagnostics w @ [ClientNotReady]\<rparr>
      else w\<lparr>redisOf := (redisOf w)\<lparr>indicatorUpdates :=
                 indicatorUpdates (redisOf w) @ [updateStreamData payload]\<rparr>\<rparr>)"

subsection \<open>The function\<close>

text \<open>
  The body of the \<open>try\<close>: the world it leaves behind, and either what it threw or the
  data block it returns. The request is sent first; a body that fails the validation
  is reported and the \<open>Error\<close> thrown, after the test for the rate limit message, which
  only adds a warning; a valid body without a data block is reported and the \<open>Error\<close>
  thrown; otherwise the entry is written with the time to live of the interval and the
  update is published.
\<close>

definition fetchFresh :: "surroundings \<Rightarrow> obj \<Rightarrow> string \<Rightarrow> world \<Rightarrow> world \<times> (fetch_error + json)" where
  "fetchFresh env params cacheKey w =
     (let request = apiRequest (apikey env) params;
          w1 = w\<lparr>requests := requests w @ [request]\<rparr>
      in case provider env request of
           Inl msg \<Rightarrow> (w1, Inl (RequestFailed msg))
         | Inr data \<Rightarrow>
             if invalidData data then
               (let w2 = w1\<lparr>diagnostics := diagnostics w1 @ [InvalidDataReceived data]\<rparr>
                in case rateLimitNote data of
                     Inl e \<Rightarrow> (w2, Inl e)
                   | Inr limited \<Rightarrow>
                       (if limited
                        then w2\<lparr>diagnostics := diagnostics w2 @ [RateLimitLikely cacheKey]\<rparr>
                        else w2,
                        Inl InvalidData))
             else
               (let metadata = read_prop data ''Meta Data''
                in case actualIndicatorData data of
                     None \<Rightarrow>
                       (w1\<lparr>diagnostics := diagnostics w1 @ [CouldNotExtract data]\<rparr>,
                        Inl NoIndicatorData)
                   | Some actual \<Rightarrow>
                       (let lastRefreshedAV = read_prop metadata ''3: Last Refreshed'';
                            ttl = ttlSeconds (get_prop params ''interval'');
                            w2 = w1\<lparr>redisOf :=
                                   setCachedIndicatorData (redisOf w1) cacheKey actual
                                     (obj_set (entries metadata) ''alphaVantageLastRefreshed''
                                        lastRefreshedAV)
                                     ttl (fetchedAt env)\<rparr>;
                            w3 = publishIndicatorUpdate w2
                                   [(''cacheKey'', JStr cacheKey),
                                    (''indicatorType'', get_prop params ''function''),
                                    (''symbol'', get_prop params ''symbol''),
                                    (''interval'', get_prop params ''interval''),
                                    (''parameters'', JObj params),
                                    (''lastRefreshed'', lastRefreshedAV),
                                    (''fetchTime'', JStr (fetchTime env))]
                        in (w3, Inr actual))))"

text \<open>
  \<open>getTechnicalIndicator\<close>: the cached data when the refresh is not forced and the cache
  has an entry; otherwise the fresh data, or \<open>null\<close> after reporting what the \<open>try\<close>
  threw.
\<close>

definition getTechnicalIndicator ::
  "runtime \<Rightarrow> surroundings \<Rightarrow> obj \<Rightarrow> bool \<Rightarrow> world \<Rightarrow> json \<times> world" where
  "getTechnicalIndicator rt env params forceRefresh w =
     (let cacheKey = generateCacheKey params;
          cachedEntry = getCachedIndicatorEntry rt (redisOf w) cacheKey
      in if \<not> forceRefresh \<and> truthy cachedEntry then (read_prop cachedEntry ''data'', w)
         else (case fetchFresh env params cacheKey w of
                 (w', Inl e) \<Rightarrow>
                   (JNull, w'\<lparr>diagnostics := diagnostics w' @ [ErrorFetching cacheKey e]\<rparr>)
               | (w', Inr actual) \<Rightarrow> (actual, w')))"

section \<open>The scheduler: one discovery tick\<close>

text \<open>
  The map \<open>scheduledJobs\<close> from job key to task keeps its insertion order. A task object
  is known by the number it got when it was created; \<open>stopped\<close> lists the tasks on which
  \<open>stop()\<close> has been called, in the order of the calls.
\<close>

record scheduler =
  scheduledJobs :: "(string \<times> nat) list"
  stopped :: "nat list"
  nextTask :: nat

text \<open>
  \<open>scheduleIndicatorFetch\<close> lives in \<open>fetchOrchestrator.ts\<close>, which is not among the
  sources; the tick only tests whether it returned a task (\<open>if (task)\<close>). It is a
  parameter here: \<open>makesTask p\<close> says whether a task comes back for the indicator \<open>p\<close>.

  The loop over \<open>indicatorsToSchedule\<close>: every job key is added to \<open>newJobKeys\<close>, and an
  indicator whose key has no job yet gets a task, when one comes back.
\<close>

fun scheduleAll :: "(obj \<Rightarrow> bool) \<Rightarrow> obj list \<Rightarrow> scheduler \<times> string list \<Rightarrow> scheduler \<times> string list" where
  "scheduleAll makesTask [] acc = acc"
| "scheduleAll makesTask (indicatorParams # rest) (s, newJobKeys) =
     (let jobKey = generateCacheKey indicatorParams;
          newJobKeys' = (if jobKey \<in> set newJobKeys then newJobKeys else newJobKeys @ [jobKey])
      in if jobKey \<notin> set (map fst (scheduledJobs s)) \<and> makesTask indicatorParams
         then scheduleAll makesTask rest
                (s\<lparr>scheduledJobs := scheduledJobs s @ [(jobKey, nextTask s)],
                   nextTask := Suc (nextTask s)\<rparr>, newJobKeys')
         else scheduleAll makesTask rest (s, newJobKeys'))"

text \<open>
  The pruning loop \<open>scheduledJobs.forEach\<close>: a job whose key is not among the new keys
  is stopped and deleted from the map.
\<close>

fun pruneJobs :: "string list \<Rightarrow> (string \<times> nat) list \<Rightarrow> scheduler \<Rightarrow> scheduler" where
  "pruneJobs newJobKeys [] s = s"
| "pruneJobs newJobKeys ((key, task) # rest) s =
     (if key \<notin> set newJobKeys
      then pruneJobs newJobKeys rest
             (s\<lparr>stopped := stopped s @ [task],
                scheduledJobs := filter (\<lambda>(k, t). k \<noteq> key) (scheduledJobs s)\<rparr>)
      else pruneJobs newJobKeys rest s)"

text \<open>
  The tick, for the outcome of \<open>getTechnicalActiveIndicators\<close>: when the scan failed the
  error is caught and nothing changes.
\<close>

definition discoveryTick :: "(obj \<Rightarrow> bool) \<Rightarrow> string + obj list \<Rightarrow> scheduler \<Rightarrow> scheduler" where
  "discoveryTick makesTask scan s =
     (case scan of
        Inl err \<Rightarrow> s
      | Inr indicatorsToSchedule \<Rightarrow>
          (case scheduleAll makesTask indicatorsToSchedule (s, []) of
             (s1, newJobKeys) \<Rightarrow> pruneJobs newJobKeys (scheduledJobs s1) s1))"

text \<open>
  What holds of the map between two ticks: no key and no task occurs twice, and every
  task is older than the next one to be created.
\<close>

definition jobsInvariant :: "scheduler \<Rightarrow> bool" where
  "jobsInvariant s =
     (distinct (map fst (scheduledJobs s)) \<and> distinct (map snd (scheduledJobs s)) \<and>
      list_all (\<lambda>(k, t). t < nextTask s) (scheduledJobs s))"

section \<open>Example inputs\<close>

text \<open>
  A daily SMA request, the same request with its top-level keys in another order, and
  the same request with the keys of the nested \<open>parameters\<close> object swapped.
\<close>

definition sma_request :: obj where
  "sma_request =
     [(''indicatorType'', JStr ''SMA''), (''symbol'', JStr ''AAPL''), (''interval'', JStr ''daily''),
      (''parameters'', JObj [(''time_period'', JNum ''20''), (''series_type'', JStr ''close'')])]"

definition sma_request_reordered :: obj where
  "sma_request_reordered =
     [(''parameters'', JObj [(''time_period'', JNum ''20''), (''series_type'', JStr ''close'')]),
      (''interval'', JStr ''daily''), (''symbol'', JStr ''AAPL''), (''indicatorType'', JStr ''SMA'')]"

definition sma_request_nested_swapped :: obj where
  "sma_request_nested_swapped =
     [(''indicatorType'', JStr ''SMA''), (''symbol'', JStr ''AAPL''), (''interval'', JStr ''daily''),
      (''parameters'', JObj [(''series_type'', JStr ''close''), (''time_period'', JNum ''20'')])]"

text \<open>The request with an explicit \<open>dataSource: null\<close>.\<close>

definition sma_request_null_source :: obj where
  "sma_request_null_source =
     [(''indicatorType'', JStr ''SMA''), (''symbol'', JStr ''AAPL''), (''interval'', JStr ''daily''),
      (''parameters'', JObj [(''time_period'', JNum ''20''), (''series_type'', JStr ''close'')]),
      (''dataSource'', JNull)]"

text \<open>
  A runtime whose built-ins never succeed, an empty store, an empty Redis with a ready
  client, and a condition on the daily SMA of AAPL with a fixed target.
\<close>

definition no_runtime :: runtime where
  "no_runtime = \<lparr>JSON_parse = (\<lambda>s. None), parseFloat = (\<lambda>v. None)\<rparr>"

definition empty_database :: database where
  "empty_database = \<lparr>strategies = [], strategyBlocks = [], conditions = [], actions = []\<rparr>"

definition empty_redis :: redis where
  "empty_redis = \<lparr>isReady = True, store = Map.empty, indicatorUpdates = [], actionRequired = []\<rparr>"

definition sma_condition :: "Operator \<Rightarrow> real \<Rightarrow> Condition" where
  "sma_condition op target =
     \<lparr>cond_id = ''c1'', indicatorType = ''SMA'', dataSource = None, dataKey = None,
      symbol = Some ''AAPL'', interval = Some ''daily'',
      parameters = JObj [(''time_period'', JNum ''20''), (''series_type'', JStr ''close'')],
      operator = op, targetValue = Some target, targetIndicatorId = None\<rparr>"

text \<open>
  The scenario of the specification: an active strategy with one condition on the daily
  SMA of AAPL and one \<open>NOTIFY\<close> action, which two of its blocks reference; the cache
  holds a series whose latest reading is 155 and whose previous reading is 149.
\<close>

definition sma_series :: json where
  "sma_series =
     JObj [(''2024-01-02'', JObj [(''SMA'', JStr ''149.0000'')]),
           (''2024-01-03'', JObj [(''SMA'', JStr ''155.0000'')])]"

definition sma_entry :: json where
  "sma_entry =
     JObj [(''data'', sma_series), (''metadata'', JObj []),
           (''fetchedAt'', JStr ''2024-01-03T21:00:00.000Z'')]"

definition example_runtime :: runtime where
  "example_runtime =
     \<lparr>JSON_parse = (\<lambda>s. if s = stringify sma_entry then Some sma_entry else None),
      parseFloat = (\<lambda>v. if v = JStr ''155.0000'' then Some 155
                        else if v = JStr ''149.0000'' then Some 149 else None)\<rparr>"

definition cached_redis :: redis where
  "cached_redis =
     \<lparr>isReady = True,
      store = [generateCacheKey sma_request \<mapsto> (stringify sma_entry, 90000)],
      indicatorUpdates = [], actionRequired = []\<rparr>"

definition notify_action :: Action where
  "notify_action =
     \<lparr>action_id = ''a1'', actionType = NOTIFY,
      action_parameters = JObj [(''message'', JStr ''SMA above target'')], action_order = 0\<rparr>"

definition example_database :: "Operator \<Rightarrow> real \<Rightarrow> database" where
  "example_database op target =
     \<lparr>strategies = [\<lparr>strategy_id = ''s1'', isActive = True\<rparr>],
      strategyBlocks =
        [\<lparr>block_id = ''b1'', strategyId = ''s1'', conditionId = Some ''c1'', actionId = None,
          block_order = 0\<rparr>,
         \<lparr>block_id = ''b2'', strategyId = ''s1'', conditionId = None, actionId = Some ''a1'',
          block_order = 1\<rparr>,
         \<lparr>block_id = ''b3'', strategyId = ''s1'', conditionId = None, actionId = Some ''a1'',
          block_order = 2\<rparr>],
      conditions = [sma_condition op target],
      actions = [notify_action]\<rparr>"

definition sma_event :: obj where
  "sma_event =
     [(''cacheKey'', JStr (generateCacheKey sma_request)),
      (''indicatorType'', JStr ''SMA''), (''symbol'', JStr ''AAPL''), (''interval'', JStr ''daily''),
      (''parameters'', JObj [(''time_period'', JNum ''20''), (''series_type'', JStr ''close'')]),
      (''fetchTime'', JStr ''2024-01-03T21:00:00.000Z'')]"

text \<open>The same event with the keys of its parameters in the other order.\<close>

definition sma_event_swapped :: obj where
  "sma_event_swapped =
     [(''cacheKey'', JStr (generateCacheKey sma_request)),
      (''indicatorType'', JStr ''SMA''), (''symbol'', JStr ''AAPL''), (''interval'', JStr ''daily''),
      (''parameters'', JObj [(''series_type'', JStr ''close''), (''time_period'', JNum ''20'')]),
      (''fetchTime'', JStr ''2024-01-03T21:00:00.000Z'')]"

text \<open>
  Bodies of provider responses: a complete one, one without a data block, the bare rate
  limit note, and a complete one that carries the rate limit note as well. A world whose
  cache holds the SMA entry, and one with an empty cache.
\<close>

definition sma_metadata :: json where
  "sma_metadata =
     JObj [(''1: Symbol'', JStr ''AAPL''), (''2: Indicator'', JStr ''Simple Moving Average (SMA)''),
           (''3: Last Refreshed'', JStr ''2024-01-03'')]"

definition rate_limit_note :: json where
  "rate_limit_note =
     JStr ''Our standard API call frequency is 5 calls per minute and 500 calls per day.''"

definition complete_body :: json where
  "complete_body = JObj [(''Meta Data'', sma_metadata), (''Technical Analysis: SMA'', sma_series)]"

definition body_without_data :: json where
  "body_without_data = JObj [(''Meta Data'', sma_metadata)]"

definition rate_limit_body :: json where
  "rate_limit_body = JObj [(''Note'', rate_limit_note)]"

definition complete_body_with_note :: json where
  "complete_body_with_note =
     JObj [(''Meta Data'', sma_metadata), (''Technical Analysis: SMA'', sma_series),
           (''Note'', rate_limit_note)]"

definition answering :: "json \<Rightarrow> surroundings" where
  "answering body =
     \<lparr>provider = (\<lambda>request. Inr body), apikey = JStr ''demo'',
      fetchedAt = ''2024-01-03T21:00:00.000Z'', fetchTime = ''2024-01-03T21:00:00.001Z''\<rparr>"

definition cached_world :: world where
  "cached_world = \<lparr>redisOf = cached_redis, requests = [], diagnostics = []\<rparr>"

definition empty_world :: world where
  "empty_world = \<lparr>redisOf = empty_redis, requests = [], diagnostics = []\<rparr>"

text \<open>Three indicators as the active-strategy scan returns them, and the idle scheduler.\<close>

definition scanned :: "string \<Rightarrow> obj" where
  "scanned ty =
     [(''function'', JStr ty), (''indicatorType'', JStr ty), (''symbol'', JStr ''AAPL''),
      (''interval'', JStr ''daily''),
      (''parameters'', JObj [(''time_period'', JNum ''20''), (''series_type'', JStr ''close'')]),
      (''dataSource'', JNull), (''dataKey'', JNull)]"

definition idle_scheduler :: scheduler where
  "idle_scheduler = \<lparr>scheduledJobs = [], stopped = [], nextTask = 0\<rparr>"

section \<open>Properties of the fingerprint\<close>

lemma sorted_component_keys:
  "sort_strs (map fst (keyParams p)) =
     [''dataSource'', ''indicatorType'', ''interval'', ''parameters'', ''symbol'']"
  by (simp add: keyParams_def)

lemma get_prop_keyParams:
  "k \<in> set component_keys \<Longrightarrow> get_prop (keyParams p) k = get_prop p k"
  by (auto simp: component_keys_def keyParams_def get_prop_def)

lemma generateCacheKey_parts:
  "generateCacheKey p =
     ''indicator:'' @ join ''|'' (map the (filter (\<lambda>part. part \<noteq> None)
        (map (key_part (keyParams p))
          [''dataSource'', ''indicatorType'', ''interval'', ''parameters'', ''symbol''])))"
  unfolding generateCacheKey_def Let_def sorted_component_keys ..

lemma key_part_agree:
  assumes "k \<in> set component_keys"
    and "get_prop p k = get_prop q k \<or> (nullish (get_prop p k) \<and> nullish (get_prop q k))"
  shows "key_part (keyParams p) k = key_part (keyParams q) k"
  using assms(2)
  unfolding key_part_def Let_def get_prop_keyParams[OF assms(1)] nullish_def
  by auto

lemma generateCacheKey_agree:
  assumes "\<And>k. k \<in> set component_keys \<Longrightarrow>
      get_prop p k = get_prop q k \<or> (nullish (get_prop p k) \<and> nullish (get_prop q k))"
  shows "generateCacheKey p = generateCacheKey q"
proof -
  have "key_part (keyParams p) k = key_part (keyParams q) k" if "k \<in> set component_keys" for k
    using key_part_agree[OF that assms[OF that]] .
  then show ?thesis
    unfolding generateCacheKey_parts by (simp add: component_keys_def)
qed

text \<open>
  C1, as the code has it. Two parameter records with the same members, each key bound
  to the identical value, give the same fingerprint whatever the order in which the
  top-level keys were inserted. The nested \<open>parameters\<close> object is part of the value: it
  is serialised with its keys in their own order.
\<close>

theorem generateCacheKey_top_level_order:
  assumes "distinct (map fst p)" and "distinct (map fst q)" and "set p = set q"
  shows "generateCacheKey p = generateCacheKey q"
proof -
  have "map_of p = map_of q"
    using assms by (simp add: map_of_inject_set)
  then have "get_prop p k = get_prop q k" for k
    by (simp add: get_prop_def)
  then show ?thesis
    by (intro generateCacheKey_agree) simp
qed

theorem generateCacheKey_top_level_order_witness:
  "sma_request \<noteq> sma_request_reordered \<and>
   generateCacheKey sma_request = generateCacheKey sma_request_reordered"
proof -
  have d1: "distinct (map fst sma_request)"
    by (simp add: sma_request_def)
  have d2: "distinct (map fst sma_request_reordered)"
    by (simp add: sma_request_reordered_def)
  have s: "set sma_request = set sma_request_reordered"
    by (auto simp: sma_request_def sma_request_reordered_def)
  have "sma_request \<noteq> sma_request_reordered"
    by (simp add: sma_request_def sma_request_reordered_def)
  with generateCacheKey_top_level_order[OF d1 d2 s] show ?thesis
    by simp
qed

text \<open>
  C1, as stated, fails: the two requests below are structurally equal and differ only in
  the key order of the nested \<open>parameters\<close> object, and their fingerprints differ.
\<close>

theorem generateCacheKey_nested_order_counterexample:
  "deep_equal (JObj sma_request) (JObj sma_request_nested_swapped) \<and>
   generateCacheKey sma_request \<noteq> generateCacheKey sma_request_nested_swapped"
proof
  show "deep_equal (JObj sma_request) (JObj sma_request_nested_swapped)"
    by (auto simp: sma_request_def sma_request_nested_swapped_def)
  show "generateCacheKey sma_request \<noteq> generateCacheKey sma_request_nested_swapped"
    unfolding generateCacheKey_parts
    by (simp add: sma_request_def sma_request_nested_swapped_def key_part_def keyParams_def
        get_prop_def stringValue_def quote_def escape_char_def)
qed

lemma key_parts_present:
  "map the (filter (\<lambda>part. part \<noteq> None) (map (key_part kp) ks)) =
     map (\<lambda>k. k @ '':'' @ stringValue (get_prop kp k))
       (filter (\<lambda>k. \<not> nullish (get_prop kp k)) ks)"
  by (induction ks) (simp_all add: key_part_def nullish_def)

lemma sort_component_keys: "sort_strs component_keys =
      [''dataSource'', ''indicatorType'', ''interval'', ''parameters'', ''symbol'']"
    by (simp add: component_keys_def)

lemma generateCacheKey_explicit: "generateCacheKey p =
     ''indicator:'' @ join ''|''
       (map (\<lambda>k. k @ '':'' @ stringValue (get_prop p k))
          (filter (\<lambda>k. \<not> nullish (get_prop p k)) (sort_strs component_keys)))"
proof -
  have g: "get_prop (keyParams p) k = get_prop p k"
    if "k \<in> set (sort_strs component_keys)" for k
    using that unfolding sort_component_keys by (intro get_prop_keyParams) (auto simp: component_keys_def)
  have "map (\<lambda>k. k @ '':'' @ stringValue (get_prop (keyParams p) k))
          (filter (\<lambda>k. \<not> nullish (get_prop (keyParams p) k)) (sort_strs component_keys)) =
        map (\<lambda>k. k @ '':'' @ stringValue (get_prop p k))
          (filter (\<lambda>k. \<not> nullish (get_prop p k)) (sort_strs component_keys))"
  proof (rule map_cong)
    show "filter (\<lambda>k. \<not> nullish (get_prop (keyParams p) k)) (sort_strs component_keys) =
          filter (\<lambda>k. \<not> nullish (get_prop p k)) (sort_strs component_keys)"
      by (rule filter_cong[OF refl]) (simp only: g)
  next
    fix k assume "k \<in> set (filter (\<lambda>k. \<not> nullish (get_prop p k)) (sort_strs component_keys))"
    then have "k \<in> set (sort_strs component_keys)" by simp
    then show "k @ '':'' @ stringValue (get_prop (keyParams p) k) = k @ '':'' @ stringValue (get_prop p k)"
      by (simp only: g)
  qed
  then show ?thesis
    by (simp only: generateCacheKey_parts key_parts_present sort_component_keys[symmetric])
qed

text \<open>
  C10. A component whose value is \<open>undefined\<close> or \<open>null\<close> contributes nothing to the key:
  the fingerprint is made of the parts \<open>name:value\<close> of the other components, in the
  order of the sorted names; so two inputs that agree on every component, or have a
  \<open>null\<close> or \<open>undefined\<close> value each where they disagree, get the same fingerprint.
\<close>

theorem generateCacheKey_omits_nullish:
  "generateCacheKey p =
     ''indicator:'' @ join ''|''
       (map (\<lambda>k. k @ '':'' @ stringValue (get_prop p k))
          (filter (\<lambda>k. \<not> nullish (get_prop p k)) (sort_strs component_keys))) \<and>
   ((\<forall>k \<in> set component_keys.
       get_prop p k = get_prop q k \<or> (nullish (get_prop p k) \<and> nullish (get_prop q k))) \<longrightarrow>
    generateCacheKey p = generateCacheKey q)"
proof
  show "generateCacheKey p =
     ''indicator:'' @ join ''|''
       (map (\<lambda>k. k @ '':'' @ stringValue (get_prop p k))
          (filter (\<lambda>k. \<not> nullish (get_prop p k)) (sort_strs component_keys)))"
    by (rule generateCacheKey_explicit)
  show "(\<forall>k \<in> set component_keys.
       get_prop p k = get_prop q k \<or> (nullish (get_prop p k) \<and> nullish (get_prop q k))) \<longrightarrow>
    generateCacheKey p = generateCacheKey q"
    by (intro impI generateCacheKey_agree) blast
qed

theorem generateCacheKey_omits_nullish_witness:
  "get_prop sma_request_null_source ''dataSource'' = JNull \<and>
   get_prop sma_request ''dataSource'' = JUndefined \<and>
   generateCacheKey sma_request_null_source = generateCacheKey sma_request \<and>
   generateCacheKey sma_request_null_source =
     ''indicator:indicatorType:SMA|interval:daily|parameters:'' @
       stringify (JObj [(''time_period'', JNum ''20''), (''series_type'', JStr ''close'')]) @
       ''|symbol:AAPL''"
proof -
  have h: "\<forall>k \<in> set component_keys.
      get_prop sma_request_null_source k = get_prop sma_request k \<or>
      (nullish (get_prop sma_request_null_source k) \<and> nullish (get_prop sma_request k))"
    by (simp add: component_keys_def sma_request_null_source_def sma_request_def
        get_prop_def nullish_def)
  note t = generateCacheKey_omits_nullish[of sma_request_null_source sma_request]
  from t h have e: "generateCacheKey sma_request_null_source = generateCacheKey sma_request"
    by blast
  from t have "generateCacheKey sma_request_null_source =
     ''indicator:'' @ join ''|''
       (map (\<lambda>k. k @ '':'' @ stringValue (get_prop sma_request_null_source k))
          (filter (\<lambda>k. \<not> nullish (get_prop sma_request_null_source k)) (sort_strs component_keys)))"
    by blast
  then have f: "generateCacheKey sma_request_null_source =
     ''indicator:indicatorType:SMA|interval:daily|parameters:'' @
       stringify (JObj [(''time_period'', JNum ''20''), (''series_type'', JStr ''close'')]) @
       ''|symbol:AAPL''"
    unfolding sort_component_keys
    by (simp add: sma_request_null_source_def get_prop_def nullish_def stringValue_def del: stringify.simps)
  have g: "get_prop sma_request_null_source ''dataSource'' = JNull"
    "get_prop sma_request ''dataSource'' = JUndefined"
    by (simp_all add: sma_request_null_source_def sma_request_def get_prop_def)
  from e f g show ?thesis
    by blast
qed

section \<open>Properties of the time to live\<close>

text \<open>
  C6. The time to live grows strictly along the tiers one minute, five minutes, daily,
  weekly, monthly, and the daily tier is kept longer than 24 hours.
\<close>

theorem ttlSeconds_strictly_increasing:
  "ttlSeconds (JStr ''1min'') < ttlSeconds (JStr ''5min'') \<and>
   ttlSeconds (JStr ''5min'') < ttlSeconds (JStr ''daily'') \<and>
   ttlSeconds (JStr ''daily'') < ttlSeconds (JStr ''weekly'') \<and>
   ttlSeconds (JStr ''weekly'') < ttlSeconds (JStr ''monthly'') \<and>
   24 * 60 * 60 < ttlSeconds (JStr ''daily'')"
  by (simp add: ttlSeconds_def)

section \<open>Properties of a single condition\<close>

lemma resolveTarget_fixed:
  "resolveTarget rt db r (sma_condition op t) = Some t"
  by (simp add: resolveTarget_def sma_condition_def)


text \<open>
  C4. Once the target of a condition is resolved to a number, \<open>CROSSES_ABOVE\<close> holds
  exactly when there is a previous value, the previous value is at most the target and
  the current value is above it; \<open>CROSSES_BELOW\<close> exactly when there is a previous
  value, it is at least the target and the current value is below it. Without a
  previous value both are false.
\<close>

theorem crossover_semantics:
  assumes "resolveTarget rt db r c = Some target"
  shows "(operator c = CROSSES_ABOVE \<longrightarrow>
            evaluateSingleCondition rt db r c cur prev =
              (\<exists>p. prev = Some p \<and> p \<le> target \<and> cur > target)) \<and>
         (operator c = CROSSES_BELOW \<longrightarrow>
            evaluateSingleCondition rt db r c cur prev =
              (\<exists>p. prev = Some p \<and> p \<ge> target \<and> cur < target)) \<and>
         (operator c = CROSSES_ABOVE \<or> operator c = CROSSES_BELOW \<longrightarrow>
            \<not> evaluateSingleCondition rt db r c cur None)"
  using assms by (auto simp: evaluateSingleCondition_def split: option.splits)

theorem crossover_semantics_witness:
  "evaluateSingleCondition no_runtime empty_database empty_redis
     (sma_condition CROSSES_ABOVE 10) 11 (Some 9) \<and>
   \<not> evaluateSingleCondition no_runtime empty_database empty_redis
     (sma_condition CROSSES_ABOVE 10) 11 (Some 10.5) \<and>
   evaluateSingleCondition no_runtime empty_database empty_redis
     (sma_condition CROSSES_BELOW 10) 9 (Some 11) \<and>
   \<not> evaluateSingleCondition no_runtime empty_database empty_redis
     (sma_condition CROSSES_ABOVE 10) 11 None \<and>
   \<not> evaluateSingleCondition no_runtime empty_database empty_redis
     (sma_condition CROSSES_BELOW 10) 9 None"
proof -
  have a: "operator (sma_condition CROSSES_ABOVE 10) = CROSSES_ABOVE"
    and b: "operator (sma_condition CROSSES_BELOW 10) = CROSSES_BELOW"
    by (simp_all add: sma_condition_def)
  note A = crossover_semantics[OF resolveTarget_fixed[of no_runtime empty_database empty_redis CROSSES_ABOVE 10]]
  note B = crossover_semantics[OF resolveTarget_fixed[of no_runtime empty_database empty_redis CROSSES_BELOW 10]]
  show ?thesis
    using A[of 11 "Some 9"] A[of 11 "Some 10.5"] B[of 9 "Some 11"] A[of 11 None] B[of 9 None] a b
    by simp
qed

subsection \<open>Rounding, on the numbers of the examples\<close>







subsection \<open>The error of rounding\<close>











section \<open>Properties of the evaluation of a strategy\<close>

subsection \<open>The example scenario, evaluated\<close>






lemma entry_ex: "getCachedIndicatorEntry example_runtime cached_redis (generateCacheKey sma_request) = sma_entry"
  by (simp add: getCachedIndicatorEntry_def cached_redis_def example_runtime_def)
     (simp add: sma_entry_def)


subsection \<open>De-duplication and the two loops\<close>

lemma findIndex_found:
  "\<exists>x \<in> set xs. P x \<Longrightarrow> findIndex P xs < length xs \<and> P (xs ! findIndex P xs)"
  by (induction xs) auto

lemma uniqueById_subset: "set (uniqueById f xs) \<subseteq> set xs"
  by (auto simp: uniqueById_def dest: set_zip_rightD)






section \<open>Properties of the matching of conditions\<close>

lemma storedConditions_store:
  assumes "\<And>c'. c' \<in> set (storedConditions byS sid) \<Longrightarrow> cond_id c' = cond_id c \<Longrightarrow> c' = c"
  shows "set (storedConditions (storeCondition sid c byS) sid') =
         set (storedConditions byS sid') \<union> (if sid' = sid then {c} else {})"
  using assms
  by (auto simp: storeCondition_def storedConditions_def Let_def list_ex_iff split: option.splits)

lemma collectBlocks_fst:
  "set (fst (collectBlocks db c bs (ids, byS))) =
     set ids \<union> {sid. activeLink db bs sid}"
  by (induction bs arbitrary: ids byS) (auto simp: addStrategyId_def activeLink_def)

lemma collectBlocks_snd:
  assumes "\<And>sid c'. c' \<in> set (storedConditions byS sid) \<Longrightarrow> cond_id c' = cond_id c \<Longrightarrow> c' = c"
  shows "set (storedConditions (snd (collectBlocks db c bs (ids, byS))) sid) =
         set (storedConditions byS sid) \<union> (if activeLink db bs sid then {c} else {})"
  using assms
proof (induction bs arbitrary: ids byS)
  case Nil
  then show ?case by (simp add: activeLink_def)
next
  case (Cons b bs)
  show ?case
  proof (cases "blockStrategyActive db b")
    case False
    then show ?thesis
      using Cons.IH[OF Cons.prems] by (auto simp: activeLink_def)
  next
    case True
    have st: "set (storedConditions (storeCondition (strategyId b) c byS) s) =
         set (storedConditions byS s) \<union> (if s = strategyId b then {c} else {})" for s
      by (rule storedConditions_store) (use Cons.prems in blast)
    have pre: "c' = c"
      if "c' \<in> set (storedConditions (storeCondition (strategyId b) c byS) s)"
        and "cond_id c' = cond_id c" for s c'
      using that Cons.prems[of c' s] by (auto simp: st split: if_splits)
    have "set (storedConditions (snd (collectBlocks db c bs
              (addStrategyId (strategyId b) ids, storeCondition (strategyId b) c byS))) sid) =
          set (storedConditions (storeCondition (strategyId b) c byS) sid) \<union>
            (if activeLink db bs sid then {c} else {})"
      by (rule Cons.IH) (rule pre)
    with True show ?thesis
      by (auto simp: st activeLink_def split: if_splits)
  qed
qed

lemma collectConditions_fst:
  "set (fst (collectConditions db up cs acc)) =
     set (fst acc) \<union> {sid. \<exists>c \<in> set cs. paramsMatch up c \<and> activeLink db (blocksOfCondition db c) sid}"
proof (induction cs arbitrary: acc)
  case Nil
  then show ?case by simp
next
  case (Cons c cs)
  obtain ids byS where acc: "acc = (ids, byS)" by (cases acc)
  show ?case
    unfolding acc using Cons.IH collectBlocks_fst[of db c "blocksOfCondition db c" ids byS]
    by (auto simp: paramsMatch_def)
qed

lemma collectConditions_snd:
  assumes "inj_on cond_id (set cs \<union> (\<Union>s. set (storedConditions (snd acc) s)))"
  shows "set (storedConditions (snd (collectConditions db up cs acc)) sid) =
     set (storedConditions (snd acc) sid) \<union>
       {c \<in> set cs. paramsMatch up c \<and> activeLink db (blocksOfCondition db c) sid}"
  using assms
proof (induction cs arbitrary: acc)
  case Nil
  then show ?case by simp
next
  case (Cons c cs)
  obtain ids byS where acc: "acc = (ids, byS)" by (cases acc)
  show ?case
  proof (cases "paramsMatch up c")
    case False
    have "inj_on cond_id (set cs \<union> (\<Union>s. set (storedConditions (snd acc) s)))"
      by (rule inj_on_subset[OF Cons.prems]) auto
    from Cons.IH[OF this] False show ?thesis
      by (auto simp: paramsMatch_def)
  next
    case True
    let ?acc' = "collectBlocks db c (blocksOfCondition db c) (ids, byS)"
    have fresh: "\<And>s c'. c' \<in> set (storedConditions byS s) \<Longrightarrow> cond_id c' = cond_id c \<Longrightarrow> c' = c"
    proof -
      fix s c' assume a: "c' \<in> set (storedConditions byS s)" "cond_id c' = cond_id c"
      have "c \<in> set (c # cs) \<union> (\<Union>s. set (storedConditions (snd acc) s))"
        by simp
      moreover have "c' \<in> set (c # cs) \<union> (\<Union>s. set (storedConditions (snd acc) s))"
        using a(1) by (auto simp: acc)
      ultimately show "c' = c"
        using inj_onD[OF Cons.prems a(2)] by blast
    qed
    have snd': "set (storedConditions (snd ?acc') s) =
         set (storedConditions byS s) \<union> (if activeLink db (blocksOfCondition db c) s then {c} else {})" for s
      by (rule collectBlocks_snd[OF fresh])
    have "inj_on cond_id (set cs \<union> (\<Union>s. set (storedConditions (snd ?acc') s)))"
      by (rule inj_on_subset[OF Cons.prems]) (auto simp: snd' acc split: if_splits)
    from Cons.IH[OF this] True show ?thesis
      by (auto simp: paramsMatch_def acc snd' split: if_splits)
  qed
qed

lemma findManyConditions_set:
  "set (findManyConditions db ty sy iv) =
     {c \<in> set (conditions db). ty = JStr (indicatorType c) \<and> where_eq (symbol c) sy \<and> where_eq (interval c) iv}"
  by (auto simp: findManyConditions_def)

lemma activeLink_blocksOfCondition:
  "activeLink db (blocksOfCondition db c) sid =
     (\<exists>b \<in> set (strategyBlocks db). conditionId b = Some (cond_id c) \<and> strategyId b = sid \<and>
        blockStrategyActive db b)"
  by (auto simp: activeLink_def blocksOfCondition_def)

text \<open>
  C2, as the code has it. With the ids of the stored conditions distinct, a condition is
  kept for a strategy exactly when it is a stored condition whose indicator type, symbol
  and interval equal the event's, whose parameters serialise (\<open>JSON.stringify\<close>) to the
  same string as the event's parameters, and which a block of that strategy, the
  strategy being active, links; the strategy is relevant exactly when some condition is
  kept for it; and a condition of that kind whose parameters are identical to the
  event's, key order included, is always kept.
\<close>

theorem matching_conditions_kept:
  assumes "distinct (map cond_id (conditions db))"
  shows "(c \<in> set (storedConditions (snd (collectConditions db updatedParams
                (findManyConditions db ty sy iv) ([], Map.empty))) sid) \<longleftrightarrow>
           c \<in> set (conditions db) \<and> ty = JStr (indicatorType c) \<and>
           where_eq (symbol c) sy \<and> where_eq (interval c) iv \<and>
           JSON_stringify (parameters c) = JSON_stringify updatedParams \<and>
           (\<exists>b \<in> set (strategyBlocks db). conditionId b = Some (cond_id c) \<and>
              strategyId b = sid \<and> blockStrategyActive db b)) \<and>
         (sid \<in> set (fst (collectConditions db updatedParams
                (findManyConditions db ty sy iv) ([], Map.empty))) \<longleftrightarrow>
           storedConditions (snd (collectConditions db updatedParams
                (findManyConditions db ty sy iv) ([], Map.empty))) sid \<noteq> []) \<and>
         (c \<in> set (conditions db) \<and> ty = JStr (indicatorType c) \<and>
           where_eq (symbol c) sy \<and> where_eq (interval c) iv \<and>
           parameters c = updatedParams \<and>
           (\<exists>b \<in> set (strategyBlocks db). conditionId b = Some (cond_id c) \<and>
              strategyId b = sid \<and> blockStrategyActive db b) \<longrightarrow>
           c \<in> set (storedConditions (snd (collectConditions db updatedParams
                (findManyConditions db ty sy iv) ([], Map.empty))) sid))"
proof -
  let ?m = "findManyConditions db ty sy iv"
  let ?res = "collectConditions db updatedParams ?m ([], Map.empty)"
  have "inj_on cond_id (set (conditions db))"
    using assms by (simp add: distinct_map)
  then have "inj_on cond_id (set ?m)"
    by (rule inj_on_subset) (auto simp: findManyConditions_set)
  then have inj: "inj_on cond_id (set ?m \<union> (\<Union>s. set (storedConditions (snd ([], Map.empty)) s)))"
    by (simp add: storedConditions_def)
  have stored: "set (storedConditions (snd ?res) s) =
      {c \<in> set ?m. paramsMatch updatedParams c \<and> activeLink db (blocksOfCondition db c) s}" for s
    using collectConditions_snd[OF inj, of db updatedParams s] by (simp add: storedConditions_def)
  have ids: "set (fst ?res) =
      {s. \<exists>c \<in> set ?m. paramsMatch updatedParams c \<and> activeLink db (blocksOfCondition db c) s}"
    using collectConditions_fst[of db updatedParams ?m "([], Map.empty)"] by simp
  have 1: "c \<in> set (storedConditions (snd ?res) sid) \<longleftrightarrow>
           c \<in> set (conditions db) \<and> ty = JStr (indicatorType c) \<and>
           where_eq (symbol c) sy \<and> where_eq (interval c) iv \<and>
           JSON_stringify (parameters c) = JSON_stringify updatedParams \<and>
           (\<exists>b \<in> set (strategyBlocks db). conditionId b = Some (cond_id c) \<and>
              strategyId b = sid \<and> blockStrategyActive db b)"
    unfolding stored findManyConditions_set paramsMatch_def activeLink_blocksOfCondition by blast
  have 2: "sid \<in> set (fst ?res) \<longleftrightarrow> storedConditions (snd ?res) sid \<noteq> []"
  proof -
    have "storedConditions (snd ?res) sid \<noteq> [] \<longleftrightarrow> set (storedConditions (snd ?res) sid) \<noteq> {}"
      by simp
    also have "\<dots> \<longleftrightarrow> sid \<in> set (fst ?res)"
      unfolding stored ids by blast
    finally show ?thesis by simp
  qed
  from 1 2 show ?thesis by blast
qed

theorem matching_conditions_kept_witness:
  "sma_condition GREATER_THAN 150 \<in>
     set (storedConditions (snd (collectConditions (example_database GREATER_THAN 150)
            (get_prop sma_event ''parameters'')
            (findManyConditions (example_database GREATER_THAN 150) (get_prop sma_event ''indicatorType'')
               (get_prop sma_event ''symbol'') (get_prop sma_event ''interval''))
            ([], Map.empty))) ''s1'') \<and>
   ''s1'' \<in> set (fst (collectConditions (example_database GREATER_THAN 150)
            (get_prop sma_event ''parameters'')
            (findManyConditions (example_database GREATER_THAN 150) (get_prop sma_event ''indicatorType'')
               (get_prop sma_event ''symbol'') (get_prop sma_event ''interval''))
            ([], Map.empty)))"
proof -
  have d: "distinct (map cond_id (conditions (example_database GREATER_THAN 150)))"
    by (simp add: example_database_def)
  have p: "parameters (sma_condition GREATER_THAN 150) = get_prop sma_event ''parameters''"
    by (simp add: sma_condition_def sma_event_def get_prop_def)
  have m: "sma_condition GREATER_THAN 150 \<in> set (conditions (example_database GREATER_THAN 150))"
    "get_prop sma_event ''indicatorType'' = JStr (indicatorType (sma_condition GREATER_THAN 150))"
    "where_eq (symbol (sma_condition GREATER_THAN 150)) (get_prop sma_event ''symbol'')"
    "where_eq (interval (sma_condition GREATER_THAN 150)) (get_prop sma_event ''interval'')"
    by (simp_all add: example_database_def sma_condition_def sma_event_def get_prop_def where_eq_def)
  have b: "\<exists>b \<in> set (strategyBlocks (example_database GREATER_THAN 150)).
      conditionId b = Some (cond_id (sma_condition GREATER_THAN 150)) \<and> strategyId b = ''s1'' \<and>
      blockStrategyActive (example_database GREATER_THAN 150) b"
    by (simp add: example_database_def sma_condition_def blockStrategyActive_def)
  show ?thesis
    using matching_conditions_kept[OF d, of "sma_condition GREATER_THAN 150"
        "get_prop sma_event ''parameters''" "get_prop sma_event ''indicatorType''"
        "get_prop sma_event ''symbol''" "get_prop sma_event ''interval''" "''s1''"] p m b
    by auto
qed

text \<open>
  C2, as stated, fails: the condition's parameters and the event's parameters are
  structurally equal and differ in key order only, the condition matches the event's
  type, symbol and interval and is linked from an active strategy, yet the loop skips
  it, and the evaluation publishes nothing although the condition holds on the cached
  series.
\<close>

theorem matching_key_order_counterexample:
  "deep_equal (parameters (sma_condition GREATER_THAN 150)) (get_prop sma_event_swapped ''parameters'') \<and>
   findManyConditions (example_database GREATER_THAN 150) (get_prop sma_event_swapped ''indicatorType'')
       (get_prop sma_event_swapped ''symbol'') (get_prop sma_event_swapped ''interval'')
     = [sma_condition GREATER_THAN 150] \<and>
   list_ex (blockStrategyActive (example_database GREATER_THAN 150))
     (blocksOfCondition (example_database GREATER_THAN 150) (sma_condition GREATER_THAN 150)) \<and>
   collectConditions (example_database GREATER_THAN 150) (get_prop sma_event_swapped ''parameters'')
     [sma_condition GREATER_THAN 150] ([], Map.empty) = ([], Map.empty) \<and>
   evaluateStrategiesForIndicator example_runtime (example_database GREATER_THAN 150)
     cached_redis sma_event_swapped = cached_redis"
proof -
  have 1: "deep_equal (parameters (sma_condition GREATER_THAN 150)) (get_prop sma_event_swapped ''parameters'')"
    by (auto simp: sma_condition_def sma_event_swapped_def get_prop_def)
  have 2: "findManyConditions (example_database GREATER_THAN 150) (get_prop sma_event_swapped ''indicatorType'')
       (get_prop sma_event_swapped ''symbol'') (get_prop sma_event_swapped ''interval'')
     = [sma_condition GREATER_THAN 150]"
    by (simp add: findManyConditions_def example_database_def sma_event_swapped_def get_prop_def
        sma_condition_def where_eq_def)
  have 3: "list_ex (blockStrategyActive (example_database GREATER_THAN 150))
     (blocksOfCondition (example_database GREATER_THAN 150) (sma_condition GREATER_THAN 150))"
    by (simp add: blocksOfCondition_def example_database_def sma_condition_def blockStrategyActive_def)
  have 4: "collectConditions (example_database GREATER_THAN 150) (get_prop sma_event_swapped ''parameters'')
     [sma_condition GREATER_THAN 150] ([], Map.empty) = ([], Map.empty)"
    by (simp add: sma_event_swapped_def get_prop_def sma_condition_def JSON_stringify_def
        quote_def escape_char_def)
  have 5: "evaluateStrategiesForIndicator example_runtime (example_database GREATER_THAN 150)
     cached_redis sma_event_swapped = cached_redis"
    unfolding evaluateStrategiesForIndicator_def Let_def 2 4
    by (simp add: sma_event_swapped_def get_prop_def)
  from 1 2 3 4 5 show ?thesis by blast
qed

section \<open>Properties of the fetcher\<close>

text \<open>
  C7. When the refresh is not forced and the cache has an entry under the fingerprint of
  the request, \<open>getTechnicalIndicator\<close> returns the \<open>data\<close> of that entry and leaves the
  world as it was: no request to the provider, no write to the cache, no event.
\<close>

theorem cache_hit_returns_cached:
  assumes "\<not> forceRefresh"
    and "truthy (getCachedIndicatorEntry rt (redisOf w) (generateCacheKey params))"
  shows "getTechnicalIndicator rt env params forceRefresh w =
           (read_prop (getCachedIndicatorEntry rt (redisOf w) (generateCacheKey params)) ''data'', w)"
  using assms by (simp add: getTechnicalIndicator_def)

theorem cache_hit_returns_cached_witness:
  "getTechnicalIndicator example_runtime (answering complete_body) sma_request False cached_world =
     (sma_series, cached_world)"
proof -
  have e: "getCachedIndicatorEntry example_runtime (redisOf cached_world) (generateCacheKey sma_request) = sma_entry"
    by (simp add: cached_world_def entry_ex)
  have t: "truthy sma_entry" "read_prop sma_entry ''data'' = sma_series"
    by (simp_all add: sma_entry_def get_prop_def)
  show ?thesis
    using cache_hit_returns_cached[of False example_runtime cached_world sma_request "answering complete_body"]
    by (simp add: e t)
qed

subsection \<open>Responses that are not usable\<close>

lemma fetchFresh_invalid:
  assumes "provider env (apiRequest (apikey env) params) = Inr data"
    and "invalidData data \<or> actualIndicatorData data = None"
  shows "\<exists>ds e. fetchFresh env params key w =
           (w\<lparr>requests := requests w @ [apiRequest (apikey env) params],
              diagnostics := diagnostics w @ ds\<rparr>, Inl e) \<and> ds \<noteq> []"
  using assms
  by (auto simp: fetchFresh_def Let_def split: sum.splits option.splits)

lemma empty_cache_miss:
  "getCachedIndicatorEntry rt (redisOf empty_world) key = JNull"
  by (simp add: getCachedIndicatorEntry_def empty_world_def empty_redis_def)

lemma provider_answering: "provider (answering body) request = Inr body"
  by (simp add: answering_def)

text \<open>
  C8, as the code has it. When the provider is asked (the refresh is forced or the cache
  has no entry) and its body fails the validation (it is no object, has an
  \<open>Error Message\<close>, or has no \<open>Meta Data\<close>) or has no data block, the call returns \<open>null\<close>,
  Redis is as it was (nothing cached, nothing published), and the last diagnostic
  written is the report of the error, which is not thrown to the caller.
\<close>

theorem invalid_response_soft_failure:
  assumes "forceRefresh \<or> \<not> truthy (getCachedIndicatorEntry rt (redisOf w) (generateCacheKey params))"
    and "provider env (apiRequest (apikey env) params) = Inr data"
    and "invalidData data \<or> actualIndicatorData data = None"
  shows "fst (getTechnicalIndicator rt env params forceRefresh w) = JNull \<and>
         redisOf (snd (getTechnicalIndicator rt env params forceRefresh w)) = redisOf w \<and>
         (\<exists>ds e. diagnostics (snd (getTechnicalIndicator rt env params forceRefresh w)) =
                   diagnostics w @ ds @ [ErrorFetching (generateCacheKey params) e])"
proof -
  from fetchFresh_invalid[OF assms(2) assms(3), of "generateCacheKey params" w]
  obtain ds e where "fetchFresh env params (generateCacheKey params) w =
           (w\<lparr>requests := requests w @ [apiRequest (apikey env) params],
              diagnostics := diagnostics w @ ds\<rparr>, Inl e)"
    by blast
  with assms(1) show ?thesis
    by (auto simp: getTechnicalIndicator_def Let_def)
qed

theorem invalid_response_soft_failure_witness:
  "fst (getTechnicalIndicator no_runtime (answering rate_limit_body) sma_request False empty_world) = JNull \<and>
   redisOf (snd (getTechnicalIndicator no_runtime (answering rate_limit_body) sma_request False empty_world))
     = empty_redis \<and>
   fst (getTechnicalIndicator no_runtime (answering body_without_data) sma_request False empty_world) = JNull \<and>
   redisOf (snd (getTechnicalIndicator no_runtime (answering body_without_data) sma_request False empty_world))
     = empty_redis"
proof -
  have miss: "False \<or> \<not> truthy (getCachedIndicatorEntry no_runtime (redisOf empty_world)
      (generateCacheKey sma_request))"
    by (simp add: empty_cache_miss)
  have a: "invalidData rate_limit_body \<or> actualIndicatorData rate_limit_body = None"
    by (simp add: invalidData_def rate_limit_body_def get_prop_def)
  have b: "invalidData body_without_data \<or> actualIndicatorData body_without_data = None"
    by (simp add: body_without_data_def actualIndicatorData_def sma_metadata_def)
  have r: "redisOf empty_world = empty_redis"
    by (simp add: empty_world_def)
  show ?thesis
    using invalid_response_soft_failure[OF miss provider_answering a]
      invalid_response_soft_failure[OF miss provider_answering b] r
    by simp
qed

text \<open>
  C8, as stated, fails for a body that carries the rate limit note next to its metadata
  and data blocks: the note is looked at only after the validation has failed, so this
  body is cached and published like any complete body.
\<close>

theorem rate_limit_note_counterexample:
  "rateLimitNote complete_body_with_note = Inr True \<and>
   fst (getTechnicalIndicator no_runtime (answering complete_body_with_note) sma_request False empty_world)
     = sma_series \<and>
   store (redisOf (snd (getTechnicalIndicator no_runtime (answering complete_body_with_note)
       sma_request False empty_world))) (generateCacheKey sma_request) \<noteq> None \<and>
   length (indicatorUpdates (redisOf (snd (getTechnicalIndicator no_runtime
       (answering complete_body_with_note) sma_request False empty_world)))) = 1"
proof -
  have 1: "rateLimitNote complete_body_with_note = Inr True"
    by (simp add: rateLimitNote_def complete_body_with_note_def get_prop_def rate_limit_note_def)
  have v: "\<not> invalidData complete_body_with_note"
    by (simp add: invalidData_def complete_body_with_note_def get_prop_def sma_metadata_def)
  have d: "actualIndicatorData complete_body_with_note = Some sma_series"
    by (simp add: actualIndicatorData_def complete_body_with_note_def sma_metadata_def sma_series_def)
  have f: "getTechnicalIndicator no_runtime (answering complete_body_with_note) sma_request False empty_world =
      (sma_series, snd (getTechnicalIndicator no_runtime (answering complete_body_with_note) sma_request False empty_world))"
    by (simp add: getTechnicalIndicator_def Let_def empty_cache_miss fetchFresh_def provider_answering v d)
  have s: "snd (getTechnicalIndicator no_runtime (answering complete_body_with_note) sma_request False empty_world) =
      fst (fetchFresh (answering complete_body_with_note) sma_request (generateCacheKey sma_request) empty_world)"
    by (simp add: getTechnicalIndicator_def Let_def empty_cache_miss fetchFresh_def provider_answering v d)
  have 3: "store (redisOf (fst (fetchFresh (answering complete_body_with_note) sma_request
      (generateCacheKey sma_request) empty_world))) (generateCacheKey sma_request) \<noteq> None"
    by (simp add: fetchFresh_def Let_def provider_answering v d publishIndicatorUpdate_def
        setCachedIndicatorData_def empty_world_def empty_redis_def)
  have 4: "length (indicatorUpdates (redisOf (fst (fetchFresh (answering complete_body_with_note) sma_request
      (generateCacheKey sma_request) empty_world)))) = 1"
    by (simp add: fetchFresh_def Let_def provider_answering v d publishIndicatorUpdate_def
        setCachedIndicatorData_def empty_world_def empty_redis_def)
  from 1 f 3 4 show ?thesis
    unfolding s by (metis fst_conv)
qed

section \<open>Properties of the discovery tick\<close>

lemma scheduleAll_keys:
  "set (snd (scheduleAll mk ps (s, ks))) = set ks \<union> generateCacheKey ` set ps"
  by (induction ps arbitrary: s ks) (auto simp: Let_def)

lemma scheduleAll_jobs:
  "\<exists>new. scheduledJobs (fst (scheduleAll mk ps (s, ks))) = scheduledJobs s @ new \<and>
         stopped (fst (scheduleAll mk ps (s, ks))) = stopped s \<and>
         nextTask (fst (scheduleAll mk ps (s, ks))) = nextTask s + length new \<and>
         map snd new = [nextTask s ..< nextTask s + length new] \<and>
         distinct (map fst new) \<and>
         set (map fst new) \<subseteq> generateCacheKey ` set ps - set (map fst (scheduledJobs s))"
proof (induction ps arbitrary: s ks)
  case Nil
  then show ?case by simp
next
  case (Cons p ps)
  let ?k = "generateCacheKey p"
  let ?ks = "if ?k \<in> set ks then ks else ks @ [?k]"
  show ?case
  proof (cases "?k \<notin> set (map fst (scheduledJobs s)) \<and> mk p")
    case False
    have e: "scheduleAll mk (p # ps) (s, ks) = scheduleAll mk ps (s, ?ks)"
      by (simp only: scheduleAll.simps Let_def if_not_P[OF False])
    from Cons.IH[of s ?ks] show ?thesis
      unfolding e by (elim exE) (rule_tac x = new in exI, auto)
  next
    case True
    let ?s = "s\<lparr>scheduledJobs := scheduledJobs s @ [(?k, nextTask s)], nextTask := Suc (nextTask s)\<rparr>"
    have e: "scheduleAll mk (p # ps) (s, ks) = scheduleAll mk ps (?s, ?ks)"
      by (simp only: scheduleAll.simps Let_def if_P[OF True])
    from Cons.IH[of ?s ?ks] obtain new where n:
      "scheduledJobs (fst (scheduleAll mk ps (?s, ?ks))) = scheduledJobs ?s @ new"
      "stopped (fst (scheduleAll mk ps (?s, ?ks))) = stopped ?s"
      "nextTask (fst (scheduleAll mk ps (?s, ?ks))) = nextTask ?s + length new"
      "map snd new = [nextTask ?s ..< nextTask ?s + length new]"
      "distinct (map fst new)"
      "set (map fst new) \<subseteq> generateCacheKey ` set ps - set (map fst (scheduledJobs ?s))"
      by blast
    have "[nextTask s ..< nextTask s + length ((?k, nextTask s) # new)] =
        nextTask s # [Suc (nextTask s) ..< Suc (nextTask s) + length new]"
      by (subst upt_conv_Cons) simp_all
    with n(4) have "map snd ((?k, nextTask s) # new) =
        [nextTask s ..< nextTask s + length ((?k, nextTask s) # new)]"
      by simp
    with n True show ?thesis
      unfolding e by (intro exI[of _ "(?k, nextTask s) # new"]) auto
  qed
qed

lemma scheduleAll_new_key:
  assumes "k \<in> generateCacheKey ` set ps"
    and "\<And>p. p \<in> set ps \<Longrightarrow> generateCacheKey p = k \<Longrightarrow> mk p"
  shows "k \<in> set (map fst (scheduledJobs (fst (scheduleAll mk ps (s, ks)))))"
  using assms
proof (induction ps arbitrary: s ks)
  case Nil
  then show ?case by simp
next
  case (Cons p ps)
  let ?k = "generateCacheKey p"
  let ?ks = "if ?k \<in> set ks then ks else ks @ [?k]"
  let ?s = "s\<lparr>scheduledJobs := scheduledJobs s @ [(?k, nextTask s)], nextTask := Suc (nextTask s)\<rparr>"
  have keep: "k \<in> set (map fst (scheduledJobs (fst (scheduleAll mk ps (s', ks')))))"
    if "k \<in> set (map fst (scheduledJobs s'))" for s' ks'
    using scheduleAll_jobs[of mk ps s' ks'] that by auto
  have later: "k \<in> set (map fst (scheduledJobs (fst (scheduleAll mk ps (s', ks')))))"
    if "?k \<noteq> k" for s' ks'
  proof -
    from that Cons.prems(1) have "k \<in> generateCacheKey ` set ps" by auto
    then show ?thesis
      by (rule Cons.IH) (use Cons.prems(2) in auto)
  qed
  show ?case
  proof (cases "?k \<notin> set (map fst (scheduledJobs s)) \<and> mk p")
    case True
    have e: "scheduleAll mk (p # ps) (s, ks) = scheduleAll mk ps (?s, ?ks)"
      by (simp only: scheduleAll.simps Let_def if_P[OF True])
    show ?thesis
    proof (cases "?k = k")
      case True
      then have "k \<in> set (map fst (scheduledJobs ?s))" by simp
      then show ?thesis unfolding e by (rule keep)
    next
      case False
      then show ?thesis unfolding e by (rule later)
    qed
  next
    case False
    have e: "scheduleAll mk (p # ps) (s, ks) = scheduleAll mk ps (s, ?ks)"
      by (simp only: scheduleAll.simps Let_def if_not_P[OF False])
    show ?thesis
    proof (cases "?k = k")
      case True
      with Cons.prems(2)[of p] have "mk p" by simp
      with False True have "k \<in> set (map fst (scheduledJobs s))" by auto
      then show ?thesis unfolding e by (rule keep)
    next
      case False
      then show ?thesis unfolding e by (rule later)
    qed
  qed
qed

lemma pruneJobs_result:
  "scheduledJobs (pruneJobs ks js s) =
     filter (\<lambda>(k, t). k \<in> set ks \<or> k \<notin> set (map fst js)) (scheduledJobs s) \<and>
   stopped (pruneJobs ks js s) = stopped s @ map snd (filter (\<lambda>(k, t). k \<notin> set ks) js) \<and>
   nextTask (pruneJobs ks js s) = nextTask s"
proof (induction js arbitrary: s)
  case Nil
  then show ?case by simp
next
  case (Cons j js)
  obtain key task where j: "j = (key, task)" by (cases j)
  show ?case
    unfolding j using Cons.IH
    by (auto simp: filter_filter intro!: filter_cong)
qed


lemma discoveryTick_explicit:
  "\<exists>new. scheduledJobs (discoveryTick mk (Inr inds) s) =
            filter (\<lambda>(k, t). k \<in> generateCacheKey ` set inds) (scheduledJobs s) @ new \<and>
         stopped (discoveryTick mk (Inr inds) s) =
            stopped s @ map snd (filter (\<lambda>(k, t). k \<notin> generateCacheKey ` set inds) (scheduledJobs s)) \<and>
         nextTask (discoveryTick mk (Inr inds) s) = nextTask s + length new \<and>
         map snd new = [nextTask s ..< nextTask s + length new] \<and>
         distinct (map fst new) \<and>
         set (map fst new) \<subseteq> generateCacheKey ` set inds - set (map fst (scheduledJobs s)) \<and>
         (\<forall>k \<in> generateCacheKey ` set inds.
            (\<forall>p \<in> set inds. generateCacheKey p = k \<longrightarrow> mk p) \<longrightarrow>
            k \<in> set (map fst (scheduledJobs s)) \<union> set (map fst new))"
proof -
  let ?K = "generateCacheKey ` set inds"
  obtain s1 ks where r: "scheduleAll mk inds (s, []) = (s1, ks)"
    by (cases "scheduleAll mk inds (s, [])")
  have ks: "set ks = ?K"
    using scheduleAll_keys[of mk inds s "[]"] by (simp add: r)
  from scheduleAll_jobs[of mk inds s "[]"] obtain new where n:
    "scheduledJobs s1 = scheduledJobs s @ new"
    "stopped s1 = stopped s"
    "nextTask s1 = nextTask s + length new"
    "map snd new = [nextTask s ..< nextTask s + length new]"
    "distinct (map fst new)"
    "set (map fst new) \<subseteq> ?K - set (map fst (scheduledJobs s))"
    unfolding r by auto
  have T: "discoveryTick mk (Inr inds) s = pruneJobs ks (scheduledJobs s1) s1"
    by (simp add: discoveryTick_def r)
  have f1: "filter (\<lambda>(k, t). k \<in> set ks \<or> k \<notin> set (map fst (scheduledJobs s1))) (scheduledJobs s1) =
      filter (\<lambda>(k, t). k \<in> ?K) (scheduledJobs s) @ new"
  proof -
    have "filter (\<lambda>(k, t). k \<in> set ks \<or> k \<notin> set (map fst (scheduledJobs s1))) (scheduledJobs s1) =
        filter (\<lambda>(k, t). k \<in> ?K) (scheduledJobs s1)"
      by (rule filter_cong) (force simp: ks)+
    also have "\<dots> = filter (\<lambda>(k, t). k \<in> ?K) (scheduledJobs s) @ filter (\<lambda>(k, t). k \<in> ?K) new"
      by (simp add: n(1))
    also have "filter (\<lambda>(k, t). k \<in> ?K) new = new"
      using n(6) by (auto simp: filter_id_conv)
    finally show ?thesis .
  qed
  have f2: "map snd (filter (\<lambda>(k, t). k \<notin> set ks) (scheduledJobs s1)) =
      map snd (filter (\<lambda>(k, t). k \<notin> ?K) (scheduledJobs s))"
  proof -
    have "filter (\<lambda>(k, t). k \<notin> ?K) new = []"
      using n(6) by (auto simp: filter_empty_conv)
    then show ?thesis
      by (simp add: ks n(1))
  qed
  have new_keys: "k \<in> set (map fst (scheduledJobs s)) \<union> set (map fst new)"
    if "k \<in> ?K" "\<forall>p \<in> set inds. generateCacheKey p = k \<longrightarrow> mk p" for k
  proof -
    have "k \<in> set (map fst (scheduledJobs (fst (scheduleAll mk inds (s, [])))))"
      by (rule scheduleAll_new_key) (use that in auto)
    then show ?thesis
      by (simp add: r n(1))
  qed
  note p = pruneJobs_result[of ks "scheduledJobs s1" s1, unfolded f1 f2, folded T]
  have 1: "scheduledJobs (discoveryTick mk (Inr inds) s) =
      filter (\<lambda>(k, t). k \<in> ?K) (scheduledJobs s) @ new"
    using p by blast
  have 2: "stopped (discoveryTick mk (Inr inds) s) =
      stopped s @ map snd (filter (\<lambda>(k, t). k \<notin> ?K) (scheduledJobs s))"
    using p n(2) by simp
  have 3: "nextTask (discoveryTick mk (Inr inds) s) = nextTask s + length new"
    using p n(3) by simp
  from 1 2 3 n(4) n(5) n(6) new_keys show ?thesis
    by blast
qed

subsection \<open>The scans A, B and then B, C\<close>

lemma generateCacheKey_scanned:
  "generateCacheKey (scanned ty) =
     ''indicator:indicatorType:'' @ ty @ ''|interval:daily|parameters:'' @
       stringify (JObj [(''time_period'', JNum ''20''), (''series_type'', JStr ''close'')]) @
       ''|symbol:AAPL''"
  unfolding generateCacheKey_parts
  by (simp add: key_part_def keyParams_def scanned_def get_prop_def stringValue_def)

lemma generateCacheKey_scanned_eq [simp]:
  "generateCacheKey (scanned a) = generateCacheKey (scanned b) \<longleftrightarrow> a = b"
  by (simp add: generateCacheKey_scanned)

lemma tick1:
  "discoveryTick (\<lambda>p. True) (Inr [scanned ''SMA'', scanned ''EMA'']) idle_scheduler =
     \<lparr>scheduledJobs = [(generateCacheKey (scanned ''SMA''), 0), (generateCacheKey (scanned ''EMA''), 1)],
      stopped = [], nextTask = 2\<rparr>"
  by (simp add: discoveryTick_def idle_scheduler_def Let_def numeral_2_eq_2)

lemma tick2:
  "discoveryTick (\<lambda>p. True) (Inr [scanned ''EMA'', scanned ''RSI''])
     \<lparr>scheduledJobs = [(generateCacheKey (scanned ''SMA''), 0), (generateCacheKey (scanned ''EMA''), 1)],
      stopped = [], nextTask = 2\<rparr> =
     \<lparr>scheduledJobs = [(generateCacheKey (scanned ''EMA''), 1), (generateCacheKey (scanned ''RSI''), 2)],
      stopped = [0], nextTask = 3\<rparr>"
  by (simp add: discoveryTick_def Let_def numeral_3_eq_3 numeral_2_eq_2)

text \<open>
  C9. Let the map of jobs have no key and no task twice and only tasks created so far.
  After a tick whose scan succeeded: a key of the map that is in the new scan keeps its
  task, which is not stopped by this tick; a key of the map that is not in the new scan
  is gone from the map and its task has been stopped by this tick; a key of the new scan
  that was not in the map has a task that did not exist before the tick, provided
  \<open>scheduleIndicatorFetch\<close> returns a task for the indicators with that key; no key
  outside the new scan is in the map; the earlier calls of \<open>stop\<close> are as they were; and
  the map is again as assumed at the start.
\<close>

theorem discoveryTick_diff:
  assumes "jobsInvariant s"
  shows "((k, t) \<in> set (scheduledJobs s) \<and> k \<in> generateCacheKey ` set inds \<longrightarrow>
            map_of (scheduledJobs (discoveryTick mk (Inr inds) s)) k = Some t \<and>
            t \<notin> set (drop (length (stopped s)) (stopped (discoveryTick mk (Inr inds) s)))) \<and>
         ((k, t) \<in> set (scheduledJobs s) \<and> k \<notin> generateCacheKey ` set inds \<longrightarrow>
            map_of (scheduledJobs (discoveryTick mk (Inr inds) s)) k = None \<and>
            t \<in> set (drop (length (stopped s)) (stopped (discoveryTick mk (Inr inds) s)))) \<and>
         (k \<in> generateCacheKey ` set inds \<and> k \<notin> set (map fst (scheduledJobs s)) \<and>
          (\<forall>p \<in> set inds. generateCacheKey p = k \<longrightarrow> mk p) \<longrightarrow>
            (\<exists>t'. map_of (scheduledJobs (discoveryTick mk (Inr inds) s)) k = Some t' \<and>
                  nextTask s \<le> t' \<and> t' \<notin> set (map snd (scheduledJobs s)))) \<and>
         (k \<notin> generateCacheKey ` set inds \<longrightarrow>
            map_of (scheduledJobs (discoveryTick mk (Inr inds) s)) k = None) \<and>
         take (length (stopped s)) (stopped (discoveryTick mk (Inr inds) s)) = stopped s \<and>
         jobsInvariant (discoveryTick mk (Inr inds) s)"
proof -
  let ?K = "generateCacheKey ` set inds"
  let ?T = "discoveryTick mk (Inr inds) s"
  let ?old = "scheduledJobs s"
  from discoveryTick_explicit[of mk inds s] obtain new where n:
    "scheduledJobs ?T = filter (\<lambda>(k, t). k \<in> ?K) ?old @ new"
    "stopped ?T = stopped s @ map snd (filter (\<lambda>(k, t). k \<notin> ?K) ?old)"
    "nextTask ?T = nextTask s + length new"
    "map snd new = [nextTask s ..< nextTask s + length new]"
    "distinct (map fst new)"
    "set (map fst new) \<subseteq> ?K - set (map fst ?old)"
    "\<forall>k \<in> ?K. (\<forall>p \<in> set inds. generateCacheKey p = k \<longrightarrow> mk p) \<longrightarrow>
        k \<in> set (map fst ?old) \<union> set (map fst new)"
    by blast
  from assms have inv: "distinct (map fst ?old)" "distinct (map snd ?old)"
    "\<And>k t. (k, t) \<in> set ?old \<Longrightarrow> t < nextTask s"
    by (auto simp: jobsInvariant_def list_all_iff)
  have dropped: "drop (length (stopped s)) (stopped ?T) = map snd (filter (\<lambda>(k, t). k \<notin> ?K) ?old)"
    by (simp add: n(2))
  have new_tasks: "nextTask s \<le> t'" "t' < nextTask s + length new" if "(k', t') \<in> set new" for k' t'
  proof -
    from that have "t' \<in> set (map snd new)" by force
    then show "nextTask s \<le> t'" "t' < nextTask s + length new"
      unfolding n(4) by auto
  qed
  have dK: "distinct (map fst (filter (\<lambda>(k, t). k \<in> ?K) ?old))"
    using inv(1) by (rule distinct_map_filter)
  have disj: "set (map fst (filter (\<lambda>(k, t). k \<in> ?K) ?old)) \<inter> set (map fst new) = {}"
    using n(6) by auto
  have dT: "distinct (map fst (scheduledJobs ?T))"
    using dK n(5) disj by (simp add: n(1))
  have a: "map_of (scheduledJobs ?T) k = Some t \<and> t \<notin> set (drop (length (stopped s)) (stopped ?T))"
    if "(k, t) \<in> set ?old" "k \<in> ?K"
  proof
    from that have "(k, t) \<in> set (scheduledJobs ?T)"
      by (simp add: n(1))
    with dT show "map_of (scheduledJobs ?T) k = Some t"
      by simp
    show "t \<notin> set (drop (length (stopped s)) (stopped ?T))"
    proof
      assume "t \<in> set (drop (length (stopped s)) (stopped ?T))"
      then obtain k' where k': "(k', t) \<in> set ?old" "k' \<notin> ?K"
        unfolding dropped by auto
      from inv(2) that(1) k'(1) have "k' = k"
        by (metis distinct_map eq_key_imp_eq_value map_of_eq_Some_iff prod.swap_def
            inj_on_def snd_conv fst_conv)
      with k'(2) that(2) show False by simp
    qed
  qed
  have b: "map_of (scheduledJobs ?T) k = None" if "k \<notin> ?K"
  proof -
    have "k \<notin> set (map fst (scheduledJobs ?T))"
      using that n(6) by (auto simp: n(1))
    then show ?thesis
      by (simp add: map_of_eq_None_iff)
  qed
  have c: "t \<in> set (drop (length (stopped s)) (stopped ?T))" if "(k, t) \<in> set ?old" "k \<notin> ?K"
    unfolding dropped using that by force
  have d: "\<exists>t'. map_of (scheduledJobs ?T) k = Some t' \<and> nextTask s \<le> t' \<and> t' \<notin> set (map snd ?old)"
    if "k \<in> ?K" "k \<notin> set (map fst ?old)" "\<forall>p \<in> set inds. generateCacheKey p = k \<longrightarrow> mk p"
  proof -
    from n(7) that have "k \<in> set (map fst new)" by blast
    then obtain t' where t': "(k, t') \<in> set new" by auto
    then have "(k, t') \<in> set (scheduledJobs ?T)"
      by (simp add: n(1))
    with dT have "map_of (scheduledJobs ?T) k = Some t'" by simp
    moreover have "nextTask s \<le> t'" using new_tasks(1)[OF t'] .
    moreover have "t' \<notin> set (map snd ?old)"
      using inv(3) \<open>nextTask s \<le> t'\<close> by fastforce
    ultimately show ?thesis by blast
  qed
  have e: "take (length (stopped s)) (stopped ?T) = stopped s"
    by (simp add: n(2))
  have f: "jobsInvariant ?T"
  proof -
    have "distinct (map snd (filter (\<lambda>(k, t). k \<in> ?K) ?old))"
      using inv(2) by (rule distinct_map_filter)
    moreover have "distinct (map snd new)"
      by (simp add: n(4))
    moreover have "set (map snd (filter (\<lambda>(k, t). k \<in> ?K) ?old)) \<inter> set (map snd new) = {}"
      using inv(3) unfolding n(4) by fastforce
    ultimately have "distinct (map snd (scheduledJobs ?T))"
      by (simp add: n(1))
    moreover have "list_all (\<lambda>(k, t). t < nextTask ?T) (scheduledJobs ?T)"
      unfolding list_all_iff n(1) n(3) using inv(3) new_tasks(2) by fastforce
    ultimately show ?thesis
      using dT by (simp add: jobsInvariant_def)
  qed
  from a b c d e f show ?thesis by blast
qed

theorem discoveryTick_diff_witness:
  "discoveryTick (\<lambda>p. True) (Inr [scanned ''EMA'', scanned ''RSI''])
     (discoveryTick (\<lambda>p. True) (Inr [scanned ''SMA'', scanned ''EMA'']) idle_scheduler) =
     \<lparr>scheduledJobs = [(generateCacheKey (scanned ''EMA''), 1), (generateCacheKey (scanned ''RSI''), 2)],
      stopped = [0], nextTask = 3\<rparr> \<and>
   map_of (scheduledJobs (discoveryTick (\<lambda>p. True) (Inr [scanned ''SMA'', scanned ''EMA'']) idle_scheduler))
     (generateCacheKey (scanned ''EMA'')) = Some 1 \<and>
   map_of (scheduledJobs (discoveryTick (\<lambda>p. True) (Inr [scanned ''EMA'', scanned ''RSI''])
     (discoveryTick (\<lambda>p. True) (Inr [scanned ''SMA'', scanned ''EMA'']) idle_scheduler)))
     (generateCacheKey (scanned ''EMA'')) = Some 1"
proof -
  let ?s1 = "discoveryTick (\<lambda>p. True) (Inr [scanned ''SMA'', scanned ''EMA'']) idle_scheduler"
  have inv: "jobsInvariant ?s1"
    unfolding tick1 by (simp add: jobsInvariant_def)
  have old: "(generateCacheKey (scanned ''EMA''), 1) \<in> set (scheduledJobs ?s1)"
    unfolding tick1 by simp
  have new: "generateCacheKey (scanned ''EMA'') \<in> generateCacheKey ` set [scanned ''EMA'', scanned ''RSI'']"
    by simp
  from discoveryTick_diff[OF inv, of "generateCacheKey (scanned ''EMA'')" 1
      "[scanned ''EMA'', scanned ''RSI'']" "\<lambda>p. True"] old new
  have "map_of (scheduledJobs (discoveryTick (\<lambda>p. True) (Inr [scanned ''EMA'', scanned ''RSI'']) ?s1))
     (generateCacheKey (scanned ''EMA'')) = Some 1"
    by blast
  then show ?thesis
    unfolding tick1 tick2 by simp
qed

end
